theory Spec2Isabelle
  imports Complex_Main
begin

section \<open>Python text\<close>

text \<open>
  A Python \<^verbatim>\<open>str\<close> is a sequence of Unicode code points, so a character is its code point
  and a string is a list of them. Python's character functions range over the whole of
  Unicode and are not part of the repository. Where the program applies them to the characters
  of its own tables, they are written out for the two blocks those tables draw from, Basic
  Latin (U+0000 to U+007F) and the Cyrillic letters U+0400 to U+045F; on those blocks the
  functions below agree with Python, and they say nothing faithful about other code points.
  Where the program applies them to text that comes from outside (the detector's arguments,
  the text to type, the clipboard text), they are parameters: see \<open>pyunicode\<close> and \<open>pylib\<close>.
\<close>

type_synonym pychar = nat
type_synonym pystr = "pychar list"

definition ascii :: "string \<Rightarrow> pystr" where
  "ascii s = map of_char s"

definition chr_is_upper_latin :: "pychar \<Rightarrow> bool" where
  "chr_is_upper_latin c = (65 \<le> c \<and> c \<le> 90)"

definition chr_is_lower_latin :: "pychar \<Rightarrow> bool" where
  "chr_is_lower_latin c = (97 \<le> c \<and> c \<le> 122)"

definition chr_is_upper_cyr :: "pychar \<Rightarrow> bool" where
  "chr_is_upper_cyr c = (1024 \<le> c \<and> c \<le> 1071)"

definition chr_is_lower_cyr :: "pychar \<Rightarrow> bool" where
  "chr_is_lower_cyr c = (1072 \<le> c \<and> c \<le> 1119)"

definition chr_isupper :: "pychar \<Rightarrow> bool" where
  "chr_isupper c = (chr_is_upper_latin c \<or> chr_is_upper_cyr c)"

definition chr_islower :: "pychar \<Rightarrow> bool" where
  "chr_islower c = (chr_is_lower_latin c \<or> chr_is_lower_cyr c)"

definition chr_isalpha :: "pychar \<Rightarrow> bool" where
  "chr_isalpha c = (chr_isupper c \<or> chr_islower c)"

text \<open>
  U+0410 to U+042F pair with U+0430 to U+044F (offset 32); U+0400 to U+040F pair with
  U+0450 to U+045F (offset 80).
\<close>

definition chr_lower :: "pychar \<Rightarrow> pychar" where
  "chr_lower c =
     (if chr_is_upper_latin c then c + 32
      else if 1040 \<le> c \<and> c \<le> 1071 then c + 32
      else if 1024 \<le> c \<and> c \<le> 1039 then c + 80
      else c)"

definition chr_upper :: "pychar \<Rightarrow> pychar" where
  "chr_upper c =
     (if chr_is_lower_latin c then c - 32
      else if 1072 \<le> c \<and> c \<le> 1103 then c - 32
      else if 1104 \<le> c \<and> c \<le> 1119 then c - 80
      else c)"

definition str_lower :: "pystr \<Rightarrow> pystr" where
  "str_lower s = map chr_lower s"

definition str_upper :: "pystr \<Rightarrow> pystr" where
  "str_upper s = map chr_upper s"

fun str_capitalize :: "pystr \<Rightarrow> pystr" where
  "str_capitalize [] = []"
| "str_capitalize (c # cs) = chr_upper c # str_lower cs"

text \<open>
  Python's Unicode functions as a parameter: \<open>u_lower\<close> is \<^verbatim>\<open>str.lower\<close> on a whole string
  (the result may differ in length from the argument), \<open>u_isalpha\<close> and \<open>u_isupper\<close> are
  \<^verbatim>\<open>str.isalpha\<close> and \<^verbatim>\<open>str.isupper\<close> on a one-character string. \<open>block_unicode\<close> is their
  restriction to the two blocks (\<open>in_blocks\<close>).
\<close>

record pyunicode =
  u_lower :: "pystr \<Rightarrow> pystr"
  u_isalpha :: "pychar \<Rightarrow> bool"
  u_isupper :: "pychar \<Rightarrow> bool"

definition block_unicode :: pyunicode where
  "block_unicode = \<lparr>u_lower = str_lower, u_isalpha = chr_isalpha, u_isupper = chr_isupper\<rparr>"

definition in_blocks :: "pychar \<Rightarrow> bool" where
  "in_blocks c = (c < 128 \<or> (1024 \<le> c \<and> c \<le> 1119))"

text \<open>The Russian letters the program names, by their Unicode names.\<close>

abbreviation cyr_a :: pychar where "cyr_a \<equiv> 1072"
abbreviation cyr_be :: pychar where "cyr_be \<equiv> 1073"
abbreviation cyr_ve :: pychar where "cyr_ve \<equiv> 1074"
abbreviation cyr_ghe :: pychar where "cyr_ghe \<equiv> 1075"
abbreviation cyr_de :: pychar where "cyr_de \<equiv> 1076"
abbreviation cyr_ie :: pychar where "cyr_ie \<equiv> 1077"
abbreviation cyr_zhe :: pychar where "cyr_zhe \<equiv> 1078"
abbreviation cyr_ze :: pychar where "cyr_ze \<equiv> 1079"
abbreviation cyr_i :: pychar where "cyr_i \<equiv> 1080"
abbreviation cyr_short_i :: pychar where "cyr_short_i \<equiv> 1081"
abbreviation cyr_ka :: pychar where "cyr_ka \<equiv> 1082"
abbreviation cyr_el :: pychar where "cyr_el \<equiv> 1083"
abbreviation cyr_em :: pychar where "cyr_em \<equiv> 1084"
abbreviation cyr_en :: pychar where "cyr_en \<equiv> 1085"
abbreviation cyr_o :: pychar where "cyr_o \<equiv> 1086"
abbreviation cyr_pe :: pychar where "cyr_pe \<equiv> 1087"
abbreviation cyr_er :: pychar where "cyr_er \<equiv> 1088"
abbreviation cyr_es :: pychar where "cyr_es \<equiv> 1089"
abbreviation cyr_te :: pychar where "cyr_te \<equiv> 1090"
abbreviation cyr_u :: pychar where "cyr_u \<equiv> 1091"
abbreviation cyr_ef :: pychar where "cyr_ef \<equiv> 1092"
abbreviation cyr_ha :: pychar where "cyr_ha \<equiv> 1093"
abbreviation cyr_tse :: pychar where "cyr_tse \<equiv> 1094"
abbreviation cyr_che :: pychar where "cyr_che \<equiv> 1095"
abbreviation cyr_sha :: pychar where "cyr_sha \<equiv> 1096"
abbreviation cyr_shcha :: pychar where "cyr_shcha \<equiv> 1097"
abbreviation cyr_hard_sign :: pychar where "cyr_hard_sign \<equiv> 1098"
abbreviation cyr_yeru :: pychar where "cyr_yeru \<equiv> 1099"
abbreviation cyr_soft_sign :: pychar where "cyr_soft_sign \<equiv> 1100"
abbreviation cyr_e :: pychar where "cyr_e \<equiv> 1101"
abbreviation cyr_yu :: pychar where "cyr_yu \<equiv> 1102"
abbreviation cyr_ya :: pychar where "cyr_ya \<equiv> 1103"
abbreviation cyr_io :: pychar where "cyr_io \<equiv> 1105"

section \<open>Scancodes (evdev.ecodes)\<close>

text \<open>
  The key codes come from the \<^verbatim>\<open>evdev\<close> package, which takes them from the Linux header
  \<^verbatim>\<open>input-event-codes.h\<close>.
\<close>

abbreviation (input) EV_KEY :: int where "EV_KEY \<equiv> 1"
abbreviation KEY_BACKSPACE :: int where "KEY_BACKSPACE \<equiv> 14"
abbreviation KEY_TAB :: int where "KEY_TAB \<equiv> 15"
abbreviation KEY_Q :: int where "KEY_Q \<equiv> 16"
abbreviation KEY_W :: int where "KEY_W \<equiv> 17"
abbreviation KEY_E :: int where "KEY_E \<equiv> 18"
abbreviation KEY_R :: int where "KEY_R \<equiv> 19"
abbreviation KEY_T :: int where "KEY_T \<equiv> 20"
abbreviation KEY_Y :: int where "KEY_Y \<equiv> 21"
abbreviation KEY_U :: int where "KEY_U \<equiv> 22"
abbreviation KEY_I :: int where "KEY_I \<equiv> 23"
abbreviation KEY_O :: int where "KEY_O \<equiv> 24"
abbreviation KEY_P :: int where "KEY_P \<equiv> 25"
abbreviation KEY_LEFTBRACE :: int where "KEY_LEFTBRACE \<equiv> 26"
abbreviation KEY_RIGHTBRACE :: int where "KEY_RIGHTBRACE \<equiv> 27"
abbreviation KEY_ENTER :: int where "KEY_ENTER \<equiv> 28"
abbreviation KEY_LEFTCTRL :: int where "KEY_LEFTCTRL \<equiv> 29"
abbreviation KEY_A :: int where "KEY_A \<equiv> 30"
abbreviation KEY_S :: int where "KEY_S \<equiv> 31"
abbreviation KEY_D :: int where "KEY_D \<equiv> 32"
abbreviation KEY_F :: int where "KEY_F \<equiv> 33"
abbreviation KEY_G :: int where "KEY_G \<equiv> 34"
abbreviation KEY_H :: int where "KEY_H \<equiv> 35"
abbreviation KEY_J :: int where "KEY_J \<equiv> 36"
abbreviation KEY_K :: int where "KEY_K \<equiv> 37"
abbreviation KEY_L :: int where "KEY_L \<equiv> 38"
abbreviation KEY_SEMICOLON :: int where "KEY_SEMICOLON \<equiv> 39"
abbreviation KEY_APOSTROPHE :: int where "KEY_APOSTROPHE \<equiv> 40"
abbreviation KEY_LEFTSHIFT :: int where "KEY_LEFTSHIFT \<equiv> 42"
abbreviation KEY_Z :: int where "KEY_Z \<equiv> 44"
abbreviation KEY_X :: int where "KEY_X \<equiv> 45"
abbreviation KEY_C :: int where "KEY_C \<equiv> 46"
abbreviation KEY_V :: int where "KEY_V \<equiv> 47"
abbreviation KEY_B :: int where "KEY_B \<equiv> 48"
abbreviation KEY_N :: int where "KEY_N \<equiv> 49"
abbreviation KEY_M :: int where "KEY_M \<equiv> 50"
abbreviation KEY_COMMA :: int where "KEY_COMMA \<equiv> 51"
abbreviation KEY_DOT :: int where "KEY_DOT \<equiv> 52"
abbreviation KEY_SLASH :: int where "KEY_SLASH \<equiv> 53"
abbreviation KEY_RIGHTSHIFT :: int where "KEY_RIGHTSHIFT \<equiv> 54"
abbreviation KEY_LEFTALT :: int where "KEY_LEFTALT \<equiv> 56"
abbreviation KEY_SPACE :: int where "KEY_SPACE \<equiv> 57"
abbreviation KEY_RIGHTCTRL :: int where "KEY_RIGHTCTRL \<equiv> 97"
abbreviation KEY_RIGHTALT :: int where "KEY_RIGHTALT \<equiv> 100"
abbreviation KEY_PAUSE :: int where "KEY_PAUSE \<equiv> 119"
abbreviation KEY_LEFTMETA :: int where "KEY_LEFTMETA \<equiv> 125"
abbreviation KEY_RIGHTMETA :: int where "KEY_RIGHTMETA \<equiv> 126"

section \<open>Layout table (core/layout.py)\<close>

text \<open>
  Each row is a Python dict literal, kept as the list of its items in insertion order:
  scancode, then the pair (English character, Russian character), each a one-character string.
\<close>

definition ROW1 :: "(int \<times> pystr \<times> pystr) list" where
  "ROW1 =
    [(KEY_Q, ascii ''q'', [cyr_short_i]),
     (KEY_W, ascii ''w'', [cyr_tse]),
     (KEY_E, ascii ''e'', [cyr_u]),
     (KEY_R, ascii ''r'', [cyr_ka]),
     (KEY_T, ascii ''t'', [cyr_ie]),
     (KEY_Y, ascii ''y'', [cyr_en]),
     (KEY_U, ascii ''u'', [cyr_ghe]),
     (KEY_I, ascii ''i'', [cyr_sha]),
     (KEY_O, ascii ''o'', [cyr_shcha]),
     (KEY_P, ascii ''p'', [cyr_ze]),
     (KEY_LEFTBRACE, ascii ''['', [cyr_ha]),
     (KEY_RIGHTBRACE, ascii '']'', [cyr_hard_sign])]"

definition ROW2 :: "(int \<times> pystr \<times> pystr) list" where
  "ROW2 =
    [(KEY_A, ascii ''a'', [cyr_ef]),
     (KEY_S, ascii ''s'', [cyr_yeru]),
     (KEY_D, ascii ''d'', [cyr_ve]),
     (KEY_F, ascii ''f'', [cyr_a]),
     (KEY_G, ascii ''g'', [cyr_pe]),
     (KEY_H, ascii ''h'', [cyr_er]),
     (KEY_J, ascii ''j'', [cyr_o]),
     (KEY_K, ascii ''k'', [cyr_el]),
     (KEY_L, ascii ''l'', [cyr_de]),
     (KEY_SEMICOLON, ascii '';'', [cyr_zhe]),
     (KEY_APOSTROPHE, [39], [cyr_e])]"

definition ROW3 :: "(int \<times> pystr \<times> pystr) list" where
  "ROW3 =
    [(KEY_Z, ascii ''z'', [cyr_ya]),
     (KEY_X, ascii ''x'', [cyr_che]),
     (KEY_C, ascii ''c'', [cyr_es]),
     (KEY_V, ascii ''v'', [cyr_em]),
     (KEY_B, ascii ''b'', [cyr_i]),
     (KEY_N, ascii ''n'', [cyr_te]),
     (KEY_M, ascii ''m'', [cyr_soft_sign]),
     (KEY_COMMA, ascii '','', [cyr_be]),
     (KEY_DOT, ascii ''.'', [cyr_yu]),
     (KEY_SLASH, ascii ''/'', ascii ''.'')]"

definition KEY_MAP_items :: "(int \<times> pystr \<times> pystr) list" where
  "KEY_MAP_items = ROW1 @ ROW2 @ ROW3"

definition KEY_MAP :: "int \<rightharpoonup> (pystr \<times> pystr)" where
  "KEY_MAP = map_of KEY_MAP_items"

section \<open>Language detector (core/detector.py)\<close>

definition en_vowels :: "pychar set" where
  "en_vowels = set (ascii ''aeiouy'')"

definition ru_vowels :: "pychar set" where
  "ru_vowels = set [cyr_a, cyr_ie, cyr_io, cyr_i, cyr_o, cyr_u, cyr_yeru, cyr_e, cyr_yu, cyr_ya]"

text \<open>
  The detector's methods accept any strings, so they take Python's Unicode functions \<open>U\<close> as a
  parameter. \<open>consonant_loop\<close> is the \<^verbatim>\<open>for char in text.lower()\<close> loop of
  \<^verbatim>\<open>_score_structure\<close>, run on the lower-cased text; the two counters are
  \<^verbatim>\<open>consecutive_consonants\<close> and \<^verbatim>\<open>max_consecutive_consonants\<close>, and the result is the
  latter when the loop ends. The length test of \<open>score_structure\<close> is on the text itself, the
  vowel test on the lower-cased text, as in the source.
\<close>

fun consonant_loop :: "pyunicode \<Rightarrow> pychar set \<Rightarrow> pystr \<Rightarrow> nat \<Rightarrow> nat \<Rightarrow> nat" where
  "consonant_loop U vowels [] consecutive_consonants max_consecutive_consonants =
     max_consecutive_consonants"
| "consonant_loop U vowels (char # rest) consecutive_consonants max_consecutive_consonants =
     (if \<not> u_isalpha U char then
        consonant_loop U vowels rest consecutive_consonants max_consecutive_consonants
      else if char \<in> vowels then
        consonant_loop U vowels rest 0 max_consecutive_consonants
      else
        consonant_loop U vowels rest (consecutive_consonants + 1)
          (max max_consecutive_consonants (consecutive_consonants + 1)))"

definition score_structure :: "pyunicode \<Rightarrow> pystr \<Rightarrow> string \<Rightarrow> int" where
  "score_structure U text lang =
     (if text = [] then 0
      else
        let vowels = (if lang = ''en'' then en_vowels else ru_vowels);
            max_consecutive_consonants = consonant_loop U vowels (u_lower U text) 0 0;
            limit = (if lang = ''en'' then 5 else 4)
        in if max_consecutive_consonants > limit then - 10
           else if length text > 4 \<and> \<not> list_ex (\<lambda>c. c \<in> vowels) (u_lower U text) then - 5
           else 5)"

definition analyze :: "pyunicode \<Rightarrow> pystr \<Rightarrow> pystr \<Rightarrow> string option" where
  "analyze U en_text ru_text =
     (let score_en = score_structure U en_text ''en'';
          score_ru = score_structure U ru_text ''ru''
      in if score_en > 0 \<and> score_ru < 0 then Some ''en''
         else if score_ru > 0 \<and> score_en < 0 then Some ''ru''
         else None)"

section \<open>Word analyzer (daemon/analyzer.py)\<close>

text \<open>
  Exceptions are values: \<open>KeyError k\<close> is the lookup \<^verbatim>\<open>KEY_MAP[k]\<close> of a scancode that is not
  in the table; \<open>ValueError\<close> and \<open>OtherError\<close> are what the number-to-words library may raise.
\<close>

datatype error = KeyError int | ValueError | OtherError

datatype ActionType =
  NONE | SWITCH_LAYOUT | CORRECT_WRONG_LAYOUT | LAYOUT_CHANGED
  | TRANSLITERATE | INVERT_CASE | NUM_TO_WORDS | REPLACE_TEXT

record AnalysisResult =
  action :: ActionType
  target_layout_index :: int
  confidence :: real
  payload :: "int list option"
  text_payload :: "pystr option"

text \<open>\<^verbatim>\<open>AnalysisResult(a)\<close>: every other field takes its dataclass default.\<close>

definition AnalysisResult_of :: "ActionType \<Rightarrow> AnalysisResult" where
  "AnalysisResult_of a =
     \<lparr>action = a, target_layout_index = 0, confidence = 0, payload = None, text_payload = None\<rparr>"

record InputAnalyzer =
  buffer :: "int list"
  active_modifiers :: "int set"
  autocorrect :: "pystr \<rightharpoonup> pystr"
  autoreplace :: "pystr \<rightharpoonup> pystr"
  switch_hotkey :: "int list"
  paused :: bool

text \<open>The constructor; an argument left out (or falsy) becomes the empty dict or list.\<close>

definition InputAnalyzer_init ::
  "int list option \<Rightarrow> (pystr \<rightharpoonup> pystr) option \<Rightarrow> (pystr \<rightharpoonup> pystr) option \<Rightarrow> InputAnalyzer" where
  "InputAnalyzer_init layout_switch_hotkey autocorrect_arg autoreplace_arg =
     \<lparr>buffer = [],
      active_modifiers = {},
      autocorrect = (case autocorrect_arg of None \<Rightarrow> Map.empty | Some d \<Rightarrow> d),
      autoreplace = (case autoreplace_arg of None \<Rightarrow> Map.empty | Some d \<Rightarrow> d),
      switch_hotkey = (case layout_switch_hotkey of None \<Rightarrow> [] | Some ks \<Rightarrow> ks),
      paused = False\<rparr>"

definition reset :: "InputAnalyzer \<Rightarrow> InputAnalyzer" where
  "reset self = self\<lparr>buffer := []\<rparr>"

definition set_paused :: "bool \<Rightarrow> InputAnalyzer \<Rightarrow> InputAnalyzer" where
  "set_paused v self =
     (if v \<and> \<not> paused self then (reset self)\<lparr>paused := v\<rparr>
      else self\<lparr>paused := v\<rparr>)"

text \<open>
  \<^verbatim>\<open>"".join(KEY_MAP[k][i] for k in self.buffer)\<close>, with \<open>sel\<close> the projection \<^verbatim>\<open>[i]\<close>; the
  first scancode missing from the table raises.
\<close>

fun render :: "(pystr \<times> pystr \<Rightarrow> pystr) \<Rightarrow> int list \<Rightarrow> error + pystr" where
  "render sel [] = Inr []"
| "render sel (k # ks) =
     (case KEY_MAP k of
        None \<Rightarrow> Inl (KeyError k)
      | Some chars \<Rightarrow>
          (case render sel ks of
             Inl e \<Rightarrow> Inl e
           | Inr s \<Rightarrow> Inr (sel chars @ s)))"

definition replace_text_result :: "int list \<Rightarrow> pystr \<Rightarrow> AnalysisResult" where
  "replace_text_result buf replacement =
     \<lparr>action = REPLACE_TEXT, target_layout_index = 0, confidence = 1,
      payload = Some buf, text_payload = Some replacement\<rparr>"

definition check_replacements :: "InputAnalyzer \<Rightarrow> error + AnalysisResult option" where
  "check_replacements self =
     (if buffer self = [] then Inr None
      else
        case render fst (buffer self) of
          Inl e \<Rightarrow> Inl e
        | Inr en_word \<Rightarrow>
           (case render snd (buffer self) of
              Inl e \<Rightarrow> Inl e
            | Inr ru_word \<Rightarrow>
               (case autoreplace self en_word of
                  Some t \<Rightarrow> Inr (Some (replace_text_result (buffer self) t))
                | None \<Rightarrow>
                   (case autoreplace self ru_word of
                      Some t \<Rightarrow> Inr (Some (replace_text_result (buffer self) t))
                    | None \<Rightarrow>
                       (case autocorrect self en_word of
                          Some t \<Rightarrow> Inr (Some (replace_text_result (buffer self) t))
                        | None \<Rightarrow>
                           (case autocorrect self ru_word of
                              Some t \<Rightarrow> Inr (Some (replace_text_result (buffer self) t))
                            | None \<Rightarrow> Inr None))))))"

definition switch_result :: "int \<Rightarrow> int list \<Rightarrow> AnalysisResult" where
  "switch_result target buf =
     \<lparr>action = SWITCH_LAYOUT, target_layout_index = target, confidence = 8 / 10,
      payload = Some buf, text_payload = None\<rparr>"

text \<open>
  \<open>analyze_buffer\<close> hands the detector the two renderings of the buffer. They consist of
  characters of the Layout Table, all of them in the two blocks, so the detector runs with
  \<open>block_unicode\<close>.
\<close>

definition analyze_buffer :: "InputAnalyzer \<Rightarrow> error + AnalysisResult" where
  "analyze_buffer self =
     (if length (buffer self) < 3 then Inr (AnalysisResult_of NONE)
      else
        case render fst (buffer self) of
          Inl e \<Rightarrow> Inl e
        | Inr en_word \<Rightarrow>
           (case render snd (buffer self) of
              Inl e \<Rightarrow> Inl e
            | Inr ru_word \<Rightarrow>
               (let verdict = analyze block_unicode en_word ru_word
                in if verdict = Some ''ru'' then Inr (switch_result 1 (buffer self))
                   else if verdict = Some ''en'' then Inr (switch_result 0 (buffer self))
                   else Inr (AnalysisResult_of NONE))))"

definition modifier_keys :: "int list" where
  "modifier_keys =
     [KEY_LEFTSHIFT, KEY_RIGHTSHIFT, KEY_LEFTCTRL, KEY_RIGHTCTRL,
      KEY_LEFTALT, KEY_RIGHTALT, KEY_LEFTMETA, KEY_RIGHTMETA]"

definition word_boundary_keys :: "int list" where
  "word_boundary_keys = [KEY_SPACE, KEY_ENTER, KEY_TAB, KEY_COMMA, KEY_DOT]"

text \<open>The modifier test of the PAUSE hotkey: only the left-hand keys are looked at.\<close>

definition hotkey_action :: "int set \<Rightarrow> ActionType" where
  "hotkey_action mods =
     (let lctrl = (KEY_LEFTCTRL \<in> mods);
          lshift = (KEY_LEFTSHIFT \<in> mods);
          lalt = (KEY_LEFTALT \<in> mods)
      in if lctrl \<and> lshift then TRANSLITERATE
         else if lctrl then INVERT_CASE
         else if lalt then NUM_TO_WORDS
         else if lshift then INVERT_CASE
         else CORRECT_WRONG_LAYOUT)"

text \<open>
  The test that the key completes the layout-switch chord: the chord is non-empty, the key is
  its last element and all the elements before it are held.
\<close>

definition chord_completed :: "int \<Rightarrow> InputAnalyzer \<Rightarrow> bool" where
  "chord_completed key_code self =
     (switch_hotkey self \<noteq> [] \<and> key_code = last (switch_hotkey self)
      \<and> list_all (\<lambda>m. m \<in> active_modifiers self) (butlast (switch_hotkey self)))"

definition process_key :: "int \<Rightarrow> int \<Rightarrow> InputAnalyzer \<Rightarrow> error + (AnalysisResult \<times> InputAnalyzer)" where
  "process_key key_code v self =
     (if paused self then Inr (AnalysisResult_of NONE, self)
      else if key_code \<in> set modifier_keys then
        (if v = 1 then
           Inr (AnalysisResult_of NONE,
                self\<lparr>active_modifiers := insert key_code (active_modifiers self)\<rparr>)
         else if v = 0 then
           Inr (AnalysisResult_of NONE,
                self\<lparr>active_modifiers := active_modifiers self - {key_code}\<rparr>)
         else Inr (AnalysisResult_of NONE, self))
      else if v = 0 then Inr (AnalysisResult_of NONE, self)
      else if chord_completed key_code self then
        Inr (AnalysisResult_of LAYOUT_CHANGED, reset self)
      else if key_code = KEY_PAUSE then
        (let act = hotkey_action (active_modifiers self)
         in if buffer self \<noteq> [] then Inr ((AnalysisResult_of act)\<lparr>payload := Some (buffer self)\<rparr>, self)
            else Inr (AnalysisResult_of act, self))
      else if key_code = KEY_BACKSPACE then
        (if buffer self \<noteq> [] then Inr (AnalysisResult_of NONE, self\<lparr>buffer := butlast (buffer self)\<rparr>)
         else Inr (AnalysisResult_of NONE, self))
      else if key_code \<in> set word_boundary_keys then
        (case check_replacements self of
           Inl e \<Rightarrow> Inl e
         | Inr res \<Rightarrow>
            (case res of
               Some r \<Rightarrow> Inr (r, reset self)
             | None \<Rightarrow> Inr (AnalysisResult_of NONE, reset self)))
      else if KEY_MAP key_code = None then Inr (AnalysisResult_of NONE, reset self)
      else
        (let self' = self\<lparr>buffer := buffer self @ [key_code]\<rparr>
         in case analyze_buffer self' of
              Inl e \<Rightarrow> Inl e
            | Inr r \<Rightarrow> Inr (r, self')))"

section \<open>Reverse lookup (core/layout\_utils.py)\<close>

text \<open>
  \<^verbatim>\<open>CHAR_TO_KEYCODE\<close> is filled by a loop over the table's items; a later assignment to the
  same character replaces the earlier one.
\<close>

definition CHAR_TO_KEYCODE :: "pystr \<rightharpoonup> int" where
  "CHAR_TO_KEYCODE =
     fold (\<lambda>(code, en, ru) d. (d(en \<mapsto> code))(ru \<mapsto> code)) KEY_MAP_items Map.empty"

text \<open>
  \<open>get_sequence_for_char\<close> is applied to the characters of any replacement text, so it takes
  Python's Unicode functions as a parameter.
\<close>

definition get_sequence_for_char :: "pyunicode \<Rightarrow> pychar \<Rightarrow> (int \<times> bool) option" where
  "get_sequence_for_char U char =
     (case CHAR_TO_KEYCODE (u_lower U [char]) of
        None \<Rightarrow> None
      | Some code \<Rightarrow> Some (code, u_isupper U char))"

section \<open>Virtual keyboard injector (daemon/injector.py)\<close>

text \<open>
  The uinput device records what was written to it. Each call on it (\<^verbatim>\<open>write\<close> or
  \<^verbatim>\<open>syn\<close>) either succeeds or raises \<^verbatim>\<open>OSError\<close>; \<open>faults\<close> is the schedule of the
  coming calls (\<open>True\<close>: the call raises), and once the schedule is used up every call succeeds.
\<close>

datatype ui_event = KeyEvent int int | Syn

record UInput =
  events :: "ui_event list"
  faults :: "bool list"

text \<open>One device call: the flag says whether it raised.\<close>

definition ui_call :: "ui_event \<Rightarrow> UInput \<Rightarrow> bool \<times> UInput" where
  "ui_call e dev =
     (case faults dev of
        [] \<Rightarrow> (False, dev\<lparr>events := events dev @ [e]\<rparr>)
      | f # fs \<Rightarrow>
          (if f then (True, dev\<lparr>faults := fs\<rparr>)
           else (False, dev\<lparr>events := events dev @ [e], faults := fs\<rparr>)))"

text \<open>The body of a \<^verbatim>\<open>try\<close> block: the calls in order, up to the first one that raises.\<close>

fun ui_calls :: "ui_event list \<Rightarrow> UInput \<Rightarrow> bool \<times> UInput" where
  "ui_calls [] dev = (False, dev)"
| "ui_calls (e # es) dev =
     (case ui_call e dev of
        (True, dev') \<Rightarrow> (True, dev')
      | (False, dev') \<Rightarrow> ui_calls es dev')"

text \<open>Messages logged at warning or error level; info and debug messages are left out.\<close>

datatype log_entry =
  ErrorWritingUinput | CannotTypeChar pychar | ClipboardEmpty | AdvancedNotImplemented

record Injector =
  ui :: "UInput option"
  injector_log :: "log_entry list"

definition send_key :: "int \<Rightarrow> bool \<Rightarrow> bool \<Rightarrow> Injector \<Rightarrow> Injector" where
  "send_key key_code press release self =
     (case ui self of
        None \<Rightarrow> self
      | Some dev \<Rightarrow>
          (case ui_calls ((if press then [KeyEvent key_code 1, Syn] else [])
                          @ (if release then [KeyEvent key_code 0, Syn] else [])) dev of
             (False, dev') \<Rightarrow> self\<lparr>ui := Some dev'\<rparr>
           | (True, dev') \<Rightarrow>
               self\<lparr>ui := Some dev', injector_log := injector_log self @ [ErrorWritingUinput]\<rparr>))"

definition send_combo :: "int list \<Rightarrow> int \<Rightarrow> Injector \<Rightarrow> Injector" where
  "send_combo modifiers key self =
     fold (\<lambda>m. send_key m False True) (rev modifiers)
       (send_key key True True
          (fold (\<lambda>m. send_key m True False) modifiers self))"

definition backspace :: "nat \<Rightarrow> Injector \<Rightarrow> Injector" where
  "backspace count self = fold (\<lambda>_. send_key KEY_BACKSPACE True True) [0..<count] self"

definition Injector_switch_layout :: "int list \<Rightarrow> Injector \<Rightarrow> Injector" where
  "Injector_switch_layout switch_keys self =
     fold (\<lambda>k. send_key k False True) (rev switch_keys)
       (fold (\<lambda>k. send_key k True False) switch_keys self)"

definition type_sequence :: "int list \<Rightarrow> Injector \<Rightarrow> Injector" where
  "type_sequence key_codes self = fold (\<lambda>k. send_key k True True) key_codes self"

definition type_char :: "pyunicode \<Rightarrow> pychar \<Rightarrow> Injector \<Rightarrow> Injector" where
  "type_char U char self =
     (case get_sequence_for_char U char of
        Some (code, shift) \<Rightarrow>
          (let s1 = (if shift then send_key KEY_LEFTSHIFT True False self else self);
               s2 = send_key code True True s1
           in if shift then send_key KEY_LEFTSHIFT False True s2 else s2)
      | None \<Rightarrow> self\<lparr>injector_log := injector_log self @ [CannotTypeChar char]\<rparr>)"

definition type_string :: "pyunicode \<Rightarrow> pystr \<Rightarrow> Injector \<Rightarrow> Injector" where
  "type_string U text self = fold (type_char U) text self"

section \<open>Text converters (core/converters.py)\<close>

definition EN_CHARS :: pystr where
  "EN_CHARS = concat (map (\<lambda>(_, en, ru). en @ str_upper en) KEY_MAP_items)"

definition RU_CHARS :: pystr where
  "RU_CHARS = concat (map (\<lambda>(_, en, ru). ru @ str_upper ru) KEY_MAP_items)"

text \<open>
  \<^verbatim>\<open>str.maketrans(x, y)\<close> for two strings of equal length: position by position, a later
  pair replacing an earlier one with the same key.
\<close>

definition maketrans :: "pystr \<Rightarrow> pystr \<Rightarrow> (pychar \<rightharpoonup> pychar)" where
  "maketrans x y = fold (\<lambda>(k, v) d. d(k \<mapsto> v)) (zip x y) Map.empty"

definition TRANS_EN_TO_RU :: "pychar \<rightharpoonup> pychar" where
  "TRANS_EN_TO_RU = maketrans EN_CHARS RU_CHARS"

definition TRANS_RU_TO_EN :: "pychar \<rightharpoonup> pychar" where
  "TRANS_RU_TO_EN = maketrans RU_CHARS EN_CHARS"

definition translate :: "(pychar \<rightharpoonup> pychar) \<Rightarrow> pystr \<Rightarrow> pystr" where
  "translate table text = map (\<lambda>c. case table c of None \<Rightarrow> c | Some d \<Rightarrow> d) text"

definition switch_layout :: "pystr \<Rightarrow> pystr" where
  "switch_layout text =
     (let full_table = TRANS_EN_TO_RU ++ TRANS_RU_TO_EN
      in translate full_table text)"

definition ru_to_lat :: "(pychar \<times> pystr) list" where
  "ru_to_lat =
    [(cyr_a, ascii ''a''), (cyr_be, ascii ''b''), (cyr_ve, ascii ''v''), (cyr_ghe, ascii ''g''),
     (cyr_de, ascii ''d''), (cyr_ie, ascii ''e''), (cyr_io, ascii ''yo''),
     (cyr_zhe, ascii ''zh''), (cyr_ze, ascii ''z''), (cyr_i, ascii ''i''),
     (cyr_short_i, ascii ''y''), (cyr_ka, ascii ''k''), (cyr_el, ascii ''l''),
     (cyr_em, ascii ''m''),
     (cyr_en, ascii ''n''), (cyr_o, ascii ''o''), (cyr_pe, ascii ''p''), (cyr_er, ascii ''r''),
     (cyr_es, ascii ''s''), (cyr_te, ascii ''t''), (cyr_u, ascii ''u''),
     (cyr_ef, ascii ''f''), (cyr_ha, ascii ''kh''), (cyr_tse, ascii ''ts''),
     (cyr_che, ascii ''ch''), (cyr_sha, ascii ''sh''), (cyr_shcha, ascii ''sch''),
     (cyr_hard_sign, []), (cyr_yeru, ascii ''y''), (cyr_soft_sign, []), (cyr_e, ascii ''e''),
     (cyr_yu, ascii ''yu''), (cyr_ya, ascii ''ya'')]"

definition ru_to_lat_full :: "pychar \<rightharpoonup> pystr" where
  "ru_to_lat_full =
     fold (\<lambda>(k, v) d. (d(k \<mapsto> v))(chr_upper k \<mapsto> str_capitalize v)) ru_to_lat Map.empty"

definition transliterate :: "pystr \<Rightarrow> pystr" where
  "transliterate text =
     concat (map (\<lambda>char. case ru_to_lat_full char of None \<Rightarrow> [char] | Some v \<Rightarrow> v) text)"

text \<open>
  \<^verbatim>\<open>str.isspace\<close> of one character (the Unicode white-space characters), for
  \<^verbatim>\<open>str.strip\<close>.
\<close>

definition chr_isspace :: "pychar \<Rightarrow> bool" where
  "chr_isspace c =
     ((9 \<le> c \<and> c \<le> 13) \<or> (28 \<le> c \<and> c \<le> 32) \<or> c = 133 \<or> c = 160 \<or> c = 5760
      \<or> (8192 \<le> c \<and> c \<le> 8202) \<or> c = 8232 \<or> c = 8233 \<or> c = 8239 \<or> c = 8287 \<or> c = 12288)"

definition str_strip :: "pystr \<Rightarrow> pystr" where
  "str_strip s = rev (dropWhile chr_isspace (rev (dropWhile chr_isspace s)))"

definition str_replace_chr :: "pychar \<Rightarrow> pychar \<Rightarrow> pystr \<Rightarrow> pystr" where
  "str_replace_chr old new s = map (\<lambda>c. if c = old then new else c) s"

text \<open>
  The number-to-words library, Python's float parser and \<^verbatim>\<open>str.swapcase\<close> are outside the
  repository and are applied to the clipboard text, which may be any string. They are
  parameters: \<open>py_float\<close> is \<^verbatim>\<open>float(s)\<close>, with \<open>None\<close> for the \<^verbatim>\<open>ValueError\<close> of a
  string that is not a number; \<open>num2words\<close> is \<open>None\<close> when the import failed, and otherwise
  the function \<^verbatim>\<open>num2words(number, lang='ru')\<close>, which may raise; \<open>py_swapcase\<close> is
  \<^verbatim>\<open>str.swapcase\<close>. The type of floats stays abstract.
\<close>

record 'f pylib =
  py_float :: "pystr \<Rightarrow> 'f option"
  num2words :: "('f \<Rightarrow> error + pystr) option"
  py_swapcase :: "pystr \<Rightarrow> pystr"

definition invert_case :: "'f pylib \<Rightarrow> pystr \<Rightarrow> pystr" where
  "invert_case lib text = py_swapcase lib text"

definition number_to_text :: "'f pylib \<Rightarrow> pystr \<Rightarrow> error + pystr option" where
  "number_to_text lib text =
     (case num2words lib of
        None \<Rightarrow> Inr None
      | Some n2w \<Rightarrow>
          (let clean_text = str_strip (str_replace_chr 44 46 text)
           in case py_float lib clean_text of
                None \<Rightarrow> Inr None
              | Some number \<Rightarrow>
                  (case n2w number of
                     Inl ValueError \<Rightarrow> Inr None
                   | Inl e \<Rightarrow> Inl e
                   | Inr words \<Rightarrow> Inr (Some words))))"

section \<open>Service orchestrator (daemon/service.py)\<close>

text \<open>
  The service owns the analyzer, the injector and the shadow layout index. Of the config
  snapshot only \<open>layout_switch_hotkey\<close> is read after construction. The clipboard and the
  sound engine are collaborators: \<open>clipboard_set\<close> lists the texts handed to
  \<^verbatim>\<open>clipboard.set_text\<close>, \<open>sound_played\<close> the names handed to \<^verbatim>\<open>sound.play\<close>, and
  \<open>tasks\<close> the selection round-trips started with \<^verbatim>\<open>asyncio.create_task\<close>, which run
  after the event handler has returned.
  The event handler types a replacement text with \<open>block_unicode\<close>, that is, as Python
  does for texts over the two blocks.
\<close>

record InputEvent =
  ev_type :: int
  ev_code :: int
  ev_value :: int

record PuntoService =
  layout_switch_hotkey :: "int list"
  injector :: Injector
  analyzer :: InputAnalyzer
  current_layout_index :: int
  clipboard_set :: "pystr list"
  sound_played :: "string list"
  tasks :: "ActionType list"
  service_log :: "log_entry list"

definition perform_switch :: "int list \<Rightarrow> PuntoService \<Rightarrow> PuntoService" where
  "perform_switch key_codes self =
     (let s1 = self\<lparr>injector := backspace (length key_codes) (injector self)\<rparr>;
          s2 = s1\<lparr>injector := Injector_switch_layout (layout_switch_hotkey s1) (injector s1)\<rparr>;
          s3 = s2\<lparr>current_layout_index := 1 - current_layout_index s2\<rparr>;
          s4 = s3\<lparr>sound_played := sound_played s3 @ [''switch'']\<rparr>;
          s5 = s4\<lparr>injector := type_sequence key_codes (injector s4)\<rparr>
      in s5\<lparr>analyzer := reset (analyzer s5)\<rparr>)"

text \<open>A payload or text that is \<^verbatim>\<open>None\<close> is falsy, as an empty one is.\<close>

definition payload_list :: "AnalysisResult \<Rightarrow> int list" where
  "payload_list res = (case payload res of None \<Rightarrow> [] | Some p \<Rightarrow> p)"

definition text_of :: "AnalysisResult \<Rightarrow> pystr" where
  "text_of res = (case text_payload res of None \<Rightarrow> [] | Some t \<Rightarrow> t)"

definition manual_actions :: "ActionType list" where
  "manual_actions = [CORRECT_WRONG_LAYOUT, TRANSLITERATE, INVERT_CASE, NUM_TO_WORDS]"

definition on_input_event :: "InputEvent \<Rightarrow> PuntoService \<Rightarrow> error + PuntoService" where
  "on_input_event event self =
     (if ev_type event \<noteq> EV_KEY then Inr self
      else
        case process_key (ev_code event) (ev_value event) (analyzer self) of
          Inl e \<Rightarrow> Inl e
        | Inr (res, analyzer') \<Rightarrow>
           (let s0 = self\<lparr>analyzer := analyzer'\<rparr>
            in if action res = LAYOUT_CHANGED then
                 Inr (s0\<lparr>current_layout_index := 1 - current_layout_index s0\<rparr>)
               else
                 (let s1 = (if action res = SWITCH_LAYOUT \<and> payload_list res \<noteq> [] then
                              (if target_layout_index res \<noteq> current_layout_index s0
                               then perform_switch (payload_list res) s0
                               else s0)
                            else s0)
                  in if action res = REPLACE_TEXT \<and> payload_list res \<noteq> [] \<and> text_of res \<noteq> [] then
                       Inr (s1\<lparr>injector :=
                              type_string block_unicode (text_of res)
                                (backspace (length (payload_list res) + 1) (injector s1))\<rparr>)
                     else if action res \<in> set manual_actions then
                       (if payload_list res \<noteq> [] then
                          (if action res = CORRECT_WRONG_LAYOUT
                           then Inr (perform_switch (payload_list res) s1)
                           else Inr (s1\<lparr>service_log := service_log s1 @ [AdvancedNotImplemented]\<rparr>))
                        else Inr (s1\<lparr>tasks := tasks s1 @ [action res]\<rparr>))
                     else Inr s1)))"

text \<open>
  Step 3 of the selection round-trip: the pure transform the action selects. For
  \<^verbatim>\<open>NUM_TO_WORDS\<close> a falsy result of \<open>number_to_text\<close> leaves the text as it is.
\<close>

definition apply_transform :: "'f pylib \<Rightarrow> ActionType \<Rightarrow> pystr \<Rightarrow> error + pystr" where
  "apply_transform lib act text =
     (if act = TRANSLITERATE then Inr (transliterate text)
      else if act = INVERT_CASE then Inr (invert_case lib text)
      else if act = NUM_TO_WORDS then
        (case number_to_text lib text of
           Inl e \<Rightarrow> Inl e
         | Inr val \<Rightarrow>
             (case val of
                None \<Rightarrow> Inr text
              | Some w \<Rightarrow> Inr (if w \<noteq> [] then w else text)))
      else Inr (switch_layout text))"

text \<open>
  The selection round-trip, run to its end; \<open>clip\<close> is what \<^verbatim>\<open>clipboard.get_text()\<close>
  returns after the copy combo. The two sleeps have no effect on the state.
\<close>

definition perform_selection_correction ::
  "'f pylib \<Rightarrow> pystr option \<Rightarrow> ActionType \<Rightarrow> PuntoService \<Rightarrow> error + PuntoService" where
  "perform_selection_correction lib clip act self =
     (let s1 = self\<lparr>injector := send_combo [KEY_LEFTCTRL] KEY_C (injector self)\<rparr>;
          text = (case clip of None \<Rightarrow> [] | Some t \<Rightarrow> t)
      in if text = [] then Inr (s1\<lparr>service_log := service_log s1 @ [ClipboardEmpty]\<rparr>)
         else
           case apply_transform lib act text of
             Inl e \<Rightarrow> Inl e
           | Inr new_text \<Rightarrow>
               (if new_text = text then Inr s1
                else
                  (let s2 = s1\<lparr>clipboard_set := clipboard_set s1 @ [new_text]\<rparr>
                   in Inr (s2\<lparr>injector := send_combo [KEY_LEFTCTRL] KEY_V (injector s2)\<rparr>))))"

text \<open>The constructor, for a config snapshot with the given fields and an opened device.\<close>

definition Injector_init :: "bool list \<Rightarrow> Injector" where
  "Injector_init fs = \<lparr>ui = Some \<lparr>events = [], faults = fs\<rparr>, injector_log = []\<rparr>"

definition PuntoService_init ::
  "int list \<Rightarrow> (pystr \<rightharpoonup> pystr) \<Rightarrow> (pystr \<rightharpoonup> pystr) \<Rightarrow> bool list \<Rightarrow> PuntoService" where
  "PuntoService_init hotkey autocorrect_cfg autoreplace_cfg fs =
     \<lparr>layout_switch_hotkey = hotkey,
      injector = Injector_init fs,
      analyzer = InputAnalyzer_init (Some hotkey) (Some autocorrect_cfg) (Some autoreplace_cfg),
      current_layout_index = 0,
      clipboard_set = [],
      sound_played = [],
      tasks = [],
      service_log = []\<rparr>"

text \<open>The events written to the device so far.\<close>

definition written :: "Injector \<Rightarrow> ui_event list" where
  "written self = (case ui self of None \<Rightarrow> [] | Some dev \<Rightarrow> events dev)"

section \<open>Drivers and reachable states\<close>

text \<open>A key-down event as the Input Tap delivers it.\<close>

definition key_down :: "int \<Rightarrow> InputEvent" where
  "key_down k = \<lparr>ev_type = EV_KEY, ev_code = k, ev_value = 1\<rparr>"

text \<open>
  \<open>feed_keys\<close> calls \<open>process_key\<close> on each (scancode, value) pair in turn and collects the
  results; \<open>feed\<close> does the same through the service's event handler, so that the executor acts
  between two keys.
\<close>

fun feed_keys ::
  "(int \<times> int) list \<Rightarrow> InputAnalyzer \<Rightarrow> error + (AnalysisResult list \<times> InputAnalyzer)" where
  "feed_keys [] a = Inr ([], a)"
| "feed_keys ((k, v) # kvs) a =
     (case process_key k v a of
        Inl e \<Rightarrow> Inl e
      | Inr (r, a') \<Rightarrow>
          (case feed_keys kvs a' of
             Inl e \<Rightarrow> Inl e
           | Inr (rs, a'') \<Rightarrow> Inr (r # rs, a'')))"

fun feed ::
  "InputEvent list \<Rightarrow> PuntoService \<Rightarrow> error + (AnalysisResult list \<times> PuntoService)" where
  "feed [] s = Inr ([], s)"
| "feed (e # es) s =
     (case process_key (ev_code e) (ev_value e) (analyzer s) of
        Inl x \<Rightarrow> Inl x
      | Inr (r, _) \<Rightarrow>
          (case on_input_event e s of
             Inl x \<Rightarrow> Inl x
           | Inr s' \<Rightarrow>
               (case feed es s' of
                  Inl x \<Rightarrow> Inl x
                | Inr (rs, s'') \<Rightarrow> Inr (r # rs, s''))))"

text \<open>
  The service as constructed from the default config snapshot
  (\<^verbatim>\<open>layout_switch_hotkey=[125, 57]\<close>, empty dictionaries), with a device that never fails.
\<close>

definition default_service :: PuntoService where
  "default_service = PuntoService_init [KEY_LEFTMETA, KEY_SPACE] Map.empty Map.empty []"

text \<open>
  The analyzer states that can arise: a constructed analyzer, and whatever \<open>process_key\<close>,
  \<open>set_paused\<close> and \<open>reset\<close> make of one.
\<close>

inductive reachable :: "InputAnalyzer \<Rightarrow> bool" where
  init: "reachable (InputAnalyzer_init hk ac ar)"
| key: "reachable a \<Longrightarrow> process_key k v a = Inr (r, a') \<Longrightarrow> reachable a'"
| pause: "reachable a \<Longrightarrow> reachable (set_paused b a)"
| reset: "reachable a \<Longrightarrow> reachable (reset a)"

section \<open>The specification's scorer and lookup order\<close>

text \<open>
  The structural score as the specification words it, for comparison with \<open>score_structure\<close>;
  characters count without regard to case, that is, as they are in the lower-cased string.
  Among its alphabetic characters, the consonant runs are the pieces between vowels; the
  score is \<open>-10\<close> when the longest run exceeds the language limit, else \<open>-5\<close> when the string
  is longer than four characters and has no vowel, else \<open>5\<close>.
\<close>

datatype language = English | Russian

definition spec_vowels :: "language \<Rightarrow> pychar set" where
  "spec_vowels l =
     (case l of
        English \<Rightarrow> set (ascii ''aeiouy'')
      | Russian \<Rightarrow> {cyr_a, cyr_ie, cyr_io, cyr_i, cyr_o, cyr_u, cyr_yeru, cyr_e, cyr_yu, cyr_ya})"

definition spec_limit :: "language \<Rightarrow> nat" where
  "spec_limit l = (case l of English \<Rightarrow> 5 | Russian \<Rightarrow> 4)"

fun split_at :: "('a \<Rightarrow> bool) \<Rightarrow> 'a list \<Rightarrow> 'a list list" where
  "split_at P [] = [[]]"
| "split_at P (x # xs) =
     (if P x then [] # split_at P xs
      else (case split_at P xs of [] \<Rightarrow> [[x]] | r # rs \<Rightarrow> (x # r) # rs))"

definition spec_max_run :: "pyunicode \<Rightarrow> language \<Rightarrow> pystr \<Rightarrow> nat" where
  "spec_max_run U l s =
     Max (set (map length (split_at (\<lambda>c. c \<in> spec_vowels l) (filter (u_isalpha U) s))))"

definition spec_score :: "pyunicode \<Rightarrow> language \<Rightarrow> pystr \<Rightarrow> int" where
  "spec_score U l text =
     (if spec_max_run U l (u_lower U text) > spec_limit l then - 10
      else if length text > 4 \<and> set (u_lower U text) \<inter> spec_vowels l = {} then - 5
      else 5)"

definition longest :: "'a list list \<Rightarrow> nat" where
  "longest rs = Max (insert 0 (set (map length rs)))"

text \<open>
  The lookup order of the specification's rule 7: the layout-0 and the layout-1 rendering in
  \<open>autoreplace\<close>, then both in \<open>autocorrect\<close>; the first hit wins.
\<close>

definition first_hit :: "'a option list \<Rightarrow> 'a option" where
  "first_hit xs = (case filter (\<lambda>x. x \<noteq> None) xs of [] \<Rightarrow> None | x # _ \<Rightarrow> x)"

definition spec_lookup :: "InputAnalyzer \<Rightarrow> pystr \<Rightarrow> pystr \<Rightarrow> pystr option" where
  "spec_lookup a w0 w1 =
     first_hit [autoreplace a w0, autoreplace a w1, autocorrect a w0, autocorrect a w1]"

text \<open>
  The alphabet of the two layouts (every primary and secondary character of the table, in
  either case), and the part of it that sits on the keys whose primary character is a letter:
  \<open>letter_pairs\<close> are the pairs (English character, Russian character) of those keys, in lower
  and in upper case.
\<close>

definition layout_alphabet :: "pychar set" where
  "layout_alphabet = set EN_CHARS \<union> set RU_CHARS"

definition letter_pairs :: "(pychar \<times> pychar) list" where
  "letter_pairs = filter (\<lambda>(e, r). chr_isalpha e) (zip EN_CHARS RU_CHARS)"

definition letter_alphabet :: "pychar list" where
  "letter_alphabet = map fst letter_pairs @ map snd letter_pairs"

definition letter_table :: "(pychar \<times> pychar) list" where
  "letter_table = letter_pairs @ map (\<lambda>(e, r). (r, e)) letter_pairs"

section \<open>Best-effort emission\<close>

text \<open>
  What the injector does when device calls fail, stated on its own for comparison with the
  injector's code. An operation is a list of requests: a key to send (scancode, press, release)
  or a warning to log. \<open>key_calls\<close> are the device calls of one key. \<open>attempt\<close> runs them
  against the schedule of failures: if one of them fails, the calls before it are written, the
  rest of the key is skipped and the schedule moves past the failing call; otherwise all are
  written. \<open>best_effort\<close> attempts every request in order, whatever failed before, and logs one
  error for each key that met a failure; with no device nothing is sent.
\<close>

datatype request = Key int bool bool | Warning pychar

definition key_calls :: "int \<Rightarrow> bool \<Rightarrow> bool \<Rightarrow> ui_event list" where
  "key_calls k press release =
     (if press then [KeyEvent k 1, Syn] else []) @ (if release then [KeyEvent k 0, Syn] else [])"

definition attempt :: "ui_event list \<Rightarrow> bool list \<Rightarrow> ui_event list \<times> bool list \<times> bool" where
  "attempt calls fs =
     (let window = take (length calls) fs;
          n = length (takeWhile Not window)
      in if n < length window then (take n calls, drop (Suc n) fs, True)
         else (calls, drop (length calls) fs, False))"

fun best_effort :: "request list \<Rightarrow> Injector \<Rightarrow> Injector" where
  "best_effort [] self = self"
| "best_effort (Warning c # rs) self =
     best_effort rs (self\<lparr>injector_log := injector_log self @ [CannotTypeChar c]\<rparr>)"
| "best_effort (Key k press release # rs) self =
     (case ui self of
        None \<Rightarrow> best_effort rs self
      | Some dev \<Rightarrow>
          (case attempt (key_calls k press release) (faults dev) of
             (written_events, fs, failed) \<Rightarrow>
               best_effort rs
                 (self\<lparr>ui := Some \<lparr>events = events dev @ written_events, faults = fs\<rparr>,
                        injector_log :=
                          injector_log self @ (if failed then [ErrorWritingUinput] else [])\<rparr>)))"

definition backspace_requests :: "nat \<Rightarrow> request list" where
  "backspace_requests n = replicate n (Key KEY_BACKSPACE True True)"

definition chord_requests :: "int list \<Rightarrow> request list" where
  "chord_requests ks = map (\<lambda>k. Key k True False) ks @ map (\<lambda>k. Key k False True) (rev ks)"

definition sequence_requests :: "int list \<Rightarrow> request list" where
  "sequence_requests ks = map (\<lambda>k. Key k True True) ks"

definition combo_requests :: "int list \<Rightarrow> int \<Rightarrow> request list" where
  "combo_requests ms k =
     map (\<lambda>m. Key m True False) ms @ [Key k True True] @ map (\<lambda>m. Key m False True) (rev ms)"

definition char_requests :: "pyunicode \<Rightarrow> pychar \<Rightarrow> request list" where
  "char_requests U c =
     (case get_sequence_for_char U c of
        None \<Rightarrow> [Warning c]
      | Some (code, shift) \<Rightarrow>
          (if shift then [Key KEY_LEFTSHIFT True False] else []) @ [Key code True True]
          @ (if shift then [Key KEY_LEFTSHIFT False True] else []))"

definition string_requests :: "pyunicode \<Rightarrow> pystr \<Rightarrow> request list" where
  "string_requests U text = concat (map (char_requests U) text)"

section \<open>Scenario states\<close>

text \<open>
  An analyzer configured with the default chord and \<^verbatim>\<open>autoreplace = {"omw": "on my way"}\<close>
  after the keys O, M, W; the default analyzer after G with right Ctrl and left Alt held, and
  with left Meta held; and an analyzer without configuration after G, H.
\<close>

definition omw_config_analyzer :: InputAnalyzer where
  "omw_config_analyzer =
     InputAnalyzer_init (Some [KEY_LEFTMETA, KEY_SPACE]) None
       (Some [ascii ''omw'' \<mapsto> ascii ''on my way''])"

definition omw_analyzer :: InputAnalyzer where
  "omw_analyzer = omw_config_analyzer\<lparr>buffer := [KEY_O, KEY_M, KEY_W]\<rparr>"

definition alt_pause_analyzer :: InputAnalyzer where
  "alt_pause_analyzer =
     (analyzer default_service)
       \<lparr>buffer := [KEY_G], active_modifiers := {KEY_RIGHTCTRL, KEY_LEFTALT}\<rparr>"

definition meta_held_analyzer :: InputAnalyzer where
  "meta_held_analyzer =
     (analyzer default_service)\<lparr>buffer := [KEY_G], active_modifiers := {KEY_LEFTMETA}\<rparr>"

definition typing_analyzer :: InputAnalyzer where
  "typing_analyzer = (InputAnalyzer_init None None None)\<lparr>buffer := [KEY_G, KEY_H]\<rparr>"

text \<open>
  Services: one whose device fails on its first call; one after the key G whose device fails
  on its second and on its sixth call; and the default one after G, H, B, D with the shadow
  layout already 1. \<open>sample_lib\<close> is a library
  that knows the number 12 only and swaps the case of the letters A to Z only.
\<close>

definition faulty_service :: PuntoService where
  "faulty_service = PuntoService_init [KEY_LEFTMETA, KEY_SPACE] Map.empty Map.empty [True]"

definition syn_faulty_service :: PuntoService where
  "syn_faulty_service =
     (PuntoService_init [KEY_LEFTMETA, KEY_SPACE] Map.empty Map.empty
        [False, True, False, False, False, True])\<lparr>analyzer :=
          (InputAnalyzer_init (Some [KEY_LEFTMETA, KEY_SPACE]) (Some Map.empty) (Some Map.empty))
            \<lparr>buffer := [KEY_G]\<rparr>\<rparr>"

definition switched_service :: PuntoService where
  "switched_service =
     default_service
       \<lparr>analyzer := (analyzer default_service)\<lparr>buffer := [KEY_G, KEY_H, KEY_B, KEY_D]\<rparr>,
        current_layout_index := 1\<rparr>"

definition sample_lib :: "nat pylib" where
  "sample_lib =
     \<lparr>py_float = (\<lambda>s. if s = ascii ''12'' then Some 12 else None),
      num2words = Some (\<lambda>n. if n = 12
                               then Inr [cyr_de, cyr_ve, cyr_ie, cyr_en, cyr_a, cyr_de, cyr_tse,
                                         cyr_a, cyr_te, cyr_soft_sign]
                               else Inl ValueError),
      py_swapcase =
        map (\<lambda>c. if 65 \<le> c \<and> c \<le> 90 then c + 32
                 else if 97 \<le> c \<and> c \<le> 122 then c - 32 else c)\<rparr>"

section \<open>Evaluation rules\<close>

lemmas layout_defs = KEY_MAP_def KEY_MAP_items_def ROW1_def ROW2_def ROW3_def ascii_def

lemmas chr_defs =
  chr_isalpha_def chr_isupper_def chr_islower_def chr_is_upper_latin_def chr_is_lower_latin_def
  chr_is_upper_cyr_def chr_is_lower_cyr_def chr_lower_def chr_upper_def str_lower_def
  str_upper_def

lemmas detector_defs =
  score_structure_def analyze_def en_vowels_def ru_vowels_def block_unicode_def

lemmas analyzer_defs =
  process_key_def modifier_keys_def chord_completed_def word_boundary_keys_def
  analyze_buffer_def check_replacements_def reset_def AnalysisResult_of_def switch_result_def
  replace_text_result_def hotkey_action_def InputAnalyzer_init_def

lemmas service_defs =
  perform_switch_def payload_list_def text_of_def manual_actions_def on_input_event_def
  PuntoService_init_def default_service_def key_down_def

section \<open>The layout scorer\<close>

lemma split_at_nonempty: "split_at P xs \<noteq> []"
  by (induction xs) (auto split: list.splits)

lemma consonant_loop_filter:
  "consonant_loop U V s cc mx = consonant_loop U V (filter (u_isalpha U) s) cc mx"
  by (induction s arbitrary: cc mx) auto

lemma longest_Nil: "longest [] = 0"
  by (simp add: longest_def)

lemma longest_Cons: "longest (r # rs) = max (length r) (longest rs)"
proof -
  have "Max (insert 0 (insert (length r) (length ` set rs)))
        = max (length r) (Max (insert 0 (length ` set rs)))"
    by (subst insert_commute) (rule Max_insert, auto)
  then show ?thesis by (simp add: longest_def)
qed

lemma longest_Max: "rs \<noteq> [] \<Longrightarrow> Max (set (map length rs)) = longest rs"
proof (induction rs)
  case Nil
  then show ?case by simp
next
  case (Cons r rs)
  show ?case
  proof (cases "rs = []")
    case True
    then show ?thesis by (simp add: longest_Cons longest_Nil)
  next
    case False
    with Cons.IH have "Max (set (map length rs)) = longest rs" by simp
    moreover have "Max (insert (length r) (set (map length rs)))
                   = max (length r) (Max (set (map length rs)))"
      using False by (intro Max_insert) auto
    ultimately show ?thesis by (simp add: longest_Cons)
  qed
qed

text \<open>
  The loop invariant: with \<open>cc\<close> consonants already counted and \<open>mx\<close> the maximum so far, the
  loop returns the maximum of \<open>mx\<close>, of the first run lengthened by \<open>cc\<close>, and of the later runs.
\<close>

lemma consonant_loop_runs:
  "list_all (u_isalpha U) s \<Longrightarrow>
   consonant_loop U V s cc mx =
     (case split_at (\<lambda>c. c \<in> V) s of
        r # rs \<Rightarrow> max (max mx (if r = [] then 0 else cc + length r)) (longest rs)
      | [] \<Rightarrow> mx)"
proof (induction s arbitrary: cc mx)
  case Nil
  then show ?case by (simp add: longest_Nil)
next
  case (Cons x xs)
  obtain r rs where sp: "split_at (\<lambda>c. c \<in> V) xs = r # rs"
    using split_at_nonempty[of "\<lambda>c. c \<in> V" xs]
    by (cases "split_at (\<lambda>c. c \<in> V) xs") auto
  from Cons.prems have al: "list_all (u_isalpha U) xs" and ax: "u_isalpha U x" by auto
  show ?case
  proof (cases "x \<in> V")
    case True
    then show ?thesis using Cons.IH[OF al, of 0 mx] sp ax
      by (simp add: longest_Cons) (simp add: max_def)
  next
    case False
    then show ?thesis using Cons.IH[OF al, of "cc + 1" "max mx (cc + 1)"] sp ax
      by (simp add: longest_Cons) (simp add: max_def)
  qed
qed

lemma max_run_eq: "consonant_loop U (spec_vowels l) s 0 0 = spec_max_run U l s"
proof -
  let ?f = "filter (u_isalpha U) s"
  obtain r rs where sp: "split_at (\<lambda>c. c \<in> spec_vowels l) ?f = r # rs"
    using split_at_nonempty[of "\<lambda>c. c \<in> spec_vowels l" ?f]
    by (cases "split_at (\<lambda>c. c \<in> spec_vowels l) ?f") auto
  have "list_all (u_isalpha U) ?f" by (simp add: list_all_iff)
  from consonant_loop_runs[OF this, of "spec_vowels l" 0 0] sp
  have "consonant_loop U (spec_vowels l) ?f 0 0 = max (length r) (longest rs)"
    by auto
  also have "\<dots> = Max (set (map length (r # rs)))"
    using longest_Max[of "r # rs"] by (simp add: longest_Cons)
  finally show ?thesis
    unfolding spec_max_run_def sp using consonant_loop_filter[of U "spec_vowels l" s 0 0]
    by simp
qed

lemma score_structure_en:
  "text \<noteq> [] \<Longrightarrow> score_structure U text ''en'' = spec_score U English text"
  using max_run_eq[of U English "u_lower U text"]
  by (auto simp: score_structure_def spec_score_def Let_def en_vowels_def spec_vowels_def
      spec_limit_def list_ex_iff)

lemma score_structure_ru:
  "text \<noteq> [] \<Longrightarrow> score_structure U text ''ru'' = spec_score U Russian text"
  using max_run_eq[of U Russian "u_lower U text"]
  by (auto simp: score_structure_def spec_score_def Let_def ru_vowels_def spec_vowels_def
      spec_limit_def list_ex_iff)

text \<open>
  The renderings of a buffer consist of characters of the two blocks, where \<open>block_unicode\<close>
  is Python's own: the analyzer never scores any other string.
\<close>

lemma KEY_MAP_in_blocks:
  assumes "KEY_MAP k = Some (en, ru)"
  shows "list_all in_blocks en \<and> list_all in_blocks ru"
proof -
  have "list_all (\<lambda>(k, en, ru). list_all in_blocks en \<and> list_all in_blocks ru) KEY_MAP_items"
    by (simp add: KEY_MAP_items_def ROW1_def ROW2_def ROW3_def ascii_def in_blocks_def)
  moreover have "(k, en, ru) \<in> set KEY_MAP_items"
    using assms by (auto simp: KEY_MAP_def dest: map_of_SomeD)
  ultimately show ?thesis by (auto simp: list_all_iff)
qed

lemma render_in_blocks:
  "render sel ks = Inr w \<Longrightarrow> sel = fst \<or> sel = snd \<Longrightarrow> list_all in_blocks w"
proof (induction ks arbitrary: w)
  case Nil
  then show ?case by simp
next
  case (Cons k ks)
  from Cons.prems(1) obtain en ru w' where
    km: "KEY_MAP k = Some (en, ru)" and r: "render sel ks = Inr w'" and w: "w = sel (en, ru) @ w'"
    by (auto split: option.splits sum.splits)
  from KEY_MAP_in_blocks[OF km] Cons.prems(2) have "list_all in_blocks (sel (en, ru))" by auto
  with Cons.IH[OF r Cons.prems(2)] w show ?case by simp
qed

text \<open>
  Claim C2, as stated, at the empty string: the scorer returns 0 there, which is none of the
  three scores of the specification (whose rule gives 5).
\<close>

theorem score_structure_empty_counterexample:
  "score_structure block_unicode [] ''en'' = 0 \<and> spec_score block_unicode English [] = 5
   \<and> score_structure block_unicode [] ''en'' \<noteq> spec_score block_unicode English []"
  by (simp add: score_structure_def spec_score_def spec_max_run_def spec_limit_def
      block_unicode_def str_lower_def)

text \<open>
  Claim C2, amended: for every non-empty string, and whatever Python's \<^verbatim>\<open>lower\<close> and
  \<^verbatim>\<open>isalpha\<close> make of its characters, the scorer computes the specification's structural
  score, for English and for Russian: the consonant runs and the vowel test are taken on the
  lower-cased string, the length test on the string itself. For all strings the verdict is
  English exactly when the English score is positive and the Russian one negative, Russian
  exactly when the Russian score is positive and the English one negative, and undecided in
  every other case.
\<close>

theorem score_structure_refines_spec:
  "text \<noteq> [] \<Longrightarrow>
     score_structure U text ''en'' = spec_score U English text
   \<and> score_structure U text ''ru'' = spec_score U Russian text
   \<and> ((analyze U s0 s1 = Some ''en'')
        = (score_structure U s0 ''en'' > 0 \<and> score_structure U s1 ''ru'' < 0))
   \<and> ((analyze U s0 s1 = Some ''ru'')
        = (score_structure U s1 ''ru'' > 0 \<and> score_structure U s0 ''en'' < 0))
   \<and> ((analyze U s0 s1 = None)
        = (\<not> (score_structure U s0 ''en'' > 0 \<and> score_structure U s1 ''ru'' < 0)
           \<and> \<not> (score_structure U s1 ''ru'' > 0 \<and> score_structure U s0 ''en'' < 0)))"
  using score_structure_en[of "text" U] score_structure_ru[of "text" U]
  by (auto simp: analyze_def Let_def)

theorem score_structure_refines_spec_witness:
  "ascii ''ghbdt'' \<noteq> []
   \<and> spec_score block_unicode English (ascii ''ghbdt'') = - 5
   \<and> spec_score block_unicode Russian (ascii ''ghbdt'') = - 10
   \<and> analyze block_unicode (ascii ''ghbdt'') [cyr_pe, cyr_er, cyr_i, cyr_ve, cyr_ie]
       = Some ''ru''"
proof -
  have ne: "ascii ''ghbdt'' \<noteq> []" by (simp add: ascii_def)
  have en: "score_structure block_unicode (ascii ''ghbdt'') ''en'' = - 5"
    by (simp add: detector_defs chr_defs ascii_def)
  have ru: "score_structure block_unicode (ascii ''ghbdt'') ''ru'' = - 10"
    by (simp add: detector_defs chr_defs ascii_def)
  have ru2: "score_structure block_unicode [cyr_pe, cyr_er, cyr_i, cyr_ve, cyr_ie] ''ru'' = 5"
    by (simp add: detector_defs chr_defs)
  from score_structure_refines_spec
         [OF ne, of block_unicode "ascii ''ghbdt''" "[cyr_pe, cyr_er, cyr_i, cyr_ve, cyr_ie]"]
  show ?thesis using ne en ru ru2 by simp
qed

section \<open>The layout switch transform\<close>

text \<open>
  The translation table is the table of the concatenated pairs, read from the end: a later
  pair with the same key replaces an earlier one.
\<close>

lemma fold_upd_map_of:
  "fold (\<lambda>(k, v) d. d(k \<mapsto> v)) ps m = m ++ map_of (rev ps)"
  by (induction ps arbitrary: m) (auto simp: map_add_def fun_eq_iff split: option.splits)

lemma maketrans_map_of: "maketrans x y = map_of (rev (zip x y))"
  by (simp add: maketrans_def fold_upd_map_of)

lemma full_table_map_of:
  "TRANS_EN_TO_RU ++ TRANS_RU_TO_EN = map_of (rev (zip EN_CHARS RU_CHARS @ zip RU_CHARS EN_CHARS))"
  by (simp add: TRANS_EN_TO_RU_def TRANS_RU_TO_EN_def maketrans_map_of)

lemma map_of_filter_key:
  "P k \<Longrightarrow> map_of (filter (\<lambda>(k', v). P k') xs) k = map_of xs k"
  by (induction xs) auto

lemma EN_CHARS_eval:
  "EN_CHARS = [113, 81, 119, 87, 101, 69, 114, 82, 116, 84, 121, 89, 117, 85, 105, 73, 111, 79, 112, 80, 91, 91, 93, 93, 97, 65, 115, 83, 100, 68, 102, 70, 103, 71, 104, 72, 106, 74, 107, 75, 108, 76, 59, 59, 39, 39, 122, 90, 120, 88, 99, 67, 118, 86, 98, 66, 110, 78, 109, 77, 44, 44, 46, 46, 47, 47]"
  by (simp add: EN_CHARS_def layout_defs chr_defs)

lemma RU_CHARS_eval:
  "RU_CHARS = [1081, 1049, 1094, 1062, 1091, 1059, 1082, 1050, 1077, 1045, 1085, 1053, 1075, 1043, 1096, 1064, 1097, 1065, 1079, 1047, 1093, 1061, 1098, 1066, 1092, 1060, 1099, 1067, 1074, 1042, 1072, 1040, 1087, 1055, 1088, 1056, 1086, 1054, 1083, 1051, 1076, 1044, 1078, 1046, 1101, 1069, 1103, 1071, 1095, 1063, 1089, 1057, 1084, 1052, 1080, 1048, 1090, 1058, 1100, 1068, 1073, 1041, 1102, 1070, 46, 46]"
  by (simp add: RU_CHARS_def layout_defs chr_defs)

lemma letter_pairs_fst:
  "filter (\<lambda>(k, v). k \<in> set letter_alphabet) (zip EN_CHARS RU_CHARS) = letter_pairs"
  by (simp add: letter_alphabet_def letter_pairs_def EN_CHARS_eval RU_CHARS_eval chr_defs)

lemma letter_pairs_snd:
  "filter (\<lambda>(k, v). k \<in> set letter_alphabet) (zip RU_CHARS EN_CHARS)
   = map (\<lambda>(e, r). (r, e)) letter_pairs"
  by (simp add: letter_alphabet_def letter_pairs_def EN_CHARS_eval RU_CHARS_eval chr_defs)

lemma distinct_letter_alphabet: "distinct letter_alphabet"
  by (simp add: letter_alphabet_def letter_pairs_def EN_CHARS_eval RU_CHARS_eval chr_defs)

lemma letter_table_keys: "map fst letter_table = letter_alphabet"
  by (simp add: letter_table_def letter_alphabet_def comp_def case_prod_unfold)

lemma letter_table_swap: "(c, d) \<in> set letter_table \<Longrightarrow> (d, c) \<in> set letter_table"
  by (auto simp: letter_table_def)

lemma full_table_letter:
  assumes "c \<in> set letter_alphabet"
  shows "(TRANS_EN_TO_RU ++ TRANS_RU_TO_EN) c = map_of (rev letter_table) c"
proof -
  let ?L = "zip EN_CHARS RU_CHARS @ zip RU_CHARS EN_CHARS"
  have "map_of (rev ?L) c = map_of (filter (\<lambda>(k, v). k \<in> set letter_alphabet) (rev ?L)) c"
    using map_of_filter_key[of "\<lambda>k. k \<in> set letter_alphabet" c "rev ?L"] assms by simp
  also have "filter (\<lambda>(k, v). k \<in> set letter_alphabet) (rev ?L) = rev letter_table"
    by (simp add: rev_filter[symmetric] letter_pairs_fst letter_pairs_snd letter_table_def del: rev_append)
  finally show ?thesis by (simp add: full_table_map_of)
qed

lemma letter_lookup:
  assumes "(c, d) \<in> set letter_table"
  shows "(TRANS_EN_TO_RU ++ TRANS_RU_TO_EN) c = Some d"
proof -
  have c: "c \<in> set letter_alphabet"
    using assms letter_table_keys by (metis fst_conv image_eqI set_map)
  have "distinct (map fst (rev letter_table))"
    using distinct_letter_alphabet letter_table_keys by (simp add: rev_map[symmetric])
  then have "map_of (rev letter_table) c = Some d"
    using assms by (intro map_of_is_SomeI) auto
  with full_table_letter[OF c] show ?thesis by simp
qed

lemma switch_char_involution:
  assumes "c \<in> set letter_alphabet"
  shows "switch_layout (switch_layout [c]) = [c]"
proof -
  from assms obtain d where cd: "(c, d) \<in> set letter_table"
    using letter_table_keys by (metis (no_types, lifting) imageE prod.collapse set_map)
  then have dc: "(d, c) \<in> set letter_table" by (rule letter_table_swap)
  from letter_lookup[OF cd] letter_lookup[OF dc] show ?thesis
    by (simp add: switch_layout_def translate_def Let_def)
qed

lemma switch_layout_append: "switch_layout (xs @ ys) = switch_layout xs @ switch_layout ys"
  by (simp add: switch_layout_def translate_def Let_def)

text \<open>
  Claim C5, as stated, at the one-character string U+044E (CYRILLIC SMALL LETTER YU, the
  secondary character of the dot key): it belongs to the alphabet, switching it gives the dot,
  and switching the dot gives the slash, because the dot is also the secondary character of the
  slash key.
\<close>

theorem switch_layout_involution_counterexample:
  "cyr_yu \<in> layout_alphabet
   \<and> switch_layout (switch_layout [cyr_yu]) = ascii ''/''
   \<and> switch_layout (switch_layout [cyr_yu]) \<noteq> [cyr_yu]"
  by (simp add: layout_alphabet_def EN_CHARS_eval RU_CHARS_eval)
    (simp add: switch_layout_def translate_def full_table_map_of EN_CHARS_eval RU_CHARS_eval
      ascii_def)

text \<open>
  Claim C5, amended: the layout switch is an involution on every string composed solely of
  characters of the keys whose primary character is a letter (the Latin letters and the Russian
  letters paired with them, in either case).
\<close>

theorem switch_layout_involution:
  "set s \<subseteq> set letter_alphabet \<Longrightarrow> switch_layout (switch_layout s) = s"
proof (induction s)
  case Nil
  then show ?case by (simp add: switch_layout_def translate_def)
next
  case (Cons c cs)
  then have "switch_layout (switch_layout [c]) = [c]" "switch_layout (switch_layout cs) = cs"
    using switch_char_involution by auto
  then show ?case
    using switch_layout_append[of "[c]" cs]
      switch_layout_append[of "switch_layout [c]" "switch_layout cs"]
    by simp
qed

theorem switch_layout_involution_witness:
  "set (ascii ''Ghbdtn'') \<subseteq> set letter_alphabet
   \<and> switch_layout (ascii ''Ghbdtn'') = [1055, cyr_er, cyr_i, cyr_ve, cyr_ie, cyr_te]
   \<and> switch_layout [1055, cyr_er, cyr_i, cyr_ve, cyr_ie, cyr_te] = ascii ''Ghbdtn''"
proof -
  have sub: "set (ascii ''Ghbdtn'') \<subseteq> set letter_alphabet"
    by (simp add: letter_alphabet_def letter_pairs_def EN_CHARS_eval RU_CHARS_eval chr_defs
        ascii_def)
  have sw: "switch_layout (ascii ''Ghbdtn'') = [1055, cyr_er, cyr_i, cyr_ve, cyr_ie, cyr_te]"
    by (simp add: switch_layout_def translate_def full_table_map_of EN_CHARS_eval RU_CHARS_eval
        ascii_def)
  from switch_layout_involution[OF sub] sub sw show ?thesis by simp
qed

section \<open>The word analyzer\<close>

lemma hotkey_action_not_changed: "hotkey_action m \<noteq> LAYOUT_CHANGED"
  by (simp add: hotkey_action_def Let_def)

lemma check_replacements_action:
  "check_replacements a = Inr (Some r) \<Longrightarrow> action r = REPLACE_TEXT"
  by (auto simp: check_replacements_def replace_text_result_def split: if_splits sum.splits option.splits)

lemma analyze_buffer_action:
  "analyze_buffer a = Inr r \<Longrightarrow> action r = NONE \<or> action r = SWITCH_LAYOUT"
  by (auto simp: analyze_buffer_def switch_result_def AnalysisResult_of_def Let_def split: if_splits sum.splits)

lemma process_key_paused:
  "paused a \<Longrightarrow> process_key k v a = Inr (AnalysisResult_of NONE, a)"
  by (simp add: process_key_def)

lemma process_key_paused_same:
  "process_key k v a = Inr (r, a') \<Longrightarrow> paused a' = paused a"
  by (auto simp: process_key_def reset_def Let_def split: if_splits sum.splits option.splits)

lemma layout_changed_cases:
  "(\<exists>r a'. process_key k v a = Inr (r, a') \<and> action r = LAYOUT_CHANGED)
   = (\<not> paused a \<and> k \<notin> set modifier_keys \<and> v \<noteq> 0 \<and> chord_completed k a)"
proof (cases "paused a \<or> k \<in> set modifier_keys \<or> v = 0")
  case True
  then show ?thesis
    by (auto simp: process_key_def AnalysisResult_of_def)
next
  case False
  show ?thesis
  proof (cases "chord_completed k a")
    case True
    with False show ?thesis
      by (auto simp: process_key_def AnalysisResult_of_def)
  next
    case nc: False
    have "\<not> (\<exists>r a'. process_key k v a = Inr (r, a') \<and> action r = LAYOUT_CHANGED)"
      using False nc hotkey_action_not_changed[of "active_modifiers a"]
      by (auto simp: process_key_def AnalysisResult_of_def Let_def
          dest!: check_replacements_action analyze_buffer_action
          split: if_splits sum.splits option.splits)
    with False nc show ?thesis by simp
  qed
qed

lemma layout_changed_result:
  "\<not> paused a \<Longrightarrow> k \<notin> set modifier_keys \<Longrightarrow> v \<noteq> 0 \<Longrightarrow> chord_completed k a \<Longrightarrow>
   process_key k v a = Inr (AnalysisResult_of LAYOUT_CHANGED, a\<lparr>buffer := []\<rparr>)"
  by (simp add: process_key_def reset_def)

lemma render_total:
  "list_all (\<lambda>k. KEY_MAP k \<noteq> None) ks \<Longrightarrow> \<exists>w. render sel ks = Inr w"
  by (induction ks) auto

text \<open>
  Every scancode in the buffer of a reachable analyzer is in the Layout Table, so there
  \<open>process_key\<close> never raises.
\<close>

lemma process_key_buffer_cases:
  assumes "process_key k v a = Inr (r, a')"
  shows "buffer a' = buffer a \<or> buffer a' = [] \<or> buffer a' = butlast (buffer a)
         \<or> (buffer a' = buffer a @ [k] \<and> KEY_MAP k \<noteq> None)"
  using assms
  by (auto simp: process_key_def reset_def Let_def split: if_splits sum.splits option.splits)

lemma process_key_buffer_in_table:
  assumes "process_key k v a = Inr (r, a')" and "list_all (\<lambda>k. KEY_MAP k \<noteq> None) (buffer a)"
  shows "list_all (\<lambda>k. KEY_MAP k \<noteq> None) (buffer a')"
proof -
  have "\<forall>x \<in> set (buffer a'). x \<in> set (buffer a) \<or> (x = k \<and> KEY_MAP k \<noteq> None)"
    using process_key_buffer_cases[OF assms(1)] by (auto dest: in_set_butlastD)
  then show ?thesis using assms(2) unfolding list_all_iff by blast
qed

lemma reachable_buffer_in_table:
  "reachable a \<Longrightarrow> list_all (\<lambda>k. KEY_MAP k \<noteq> None) (buffer a)"
proof (induction rule: reachable.induct)
  case (init hk ac ar)
  then show ?case by (simp add: InputAnalyzer_init_def)
next
  case (key a k v r a')
  then show ?case using process_key_buffer_in_table by blast
next
  case (pause a b)
  then show ?case by (simp add: set_paused_def reset_def)
next
  case (reset a)
  then show ?case by (simp add: reset_def)
qed

lemma process_key_total:
  assumes "reachable a"
  shows "\<exists>r a'. process_key k v a = Inr (r, a')"
proof -
  have b: "list_all (\<lambda>k. KEY_MAP k \<noteq> None) (buffer a)"
    using assms by (rule reachable_buffer_in_table)
  obtain w0 w1 where w: "render fst (buffer a) = Inr w0" "render snd (buffer a) = Inr w1"
    using render_total[OF b] by blast
  have cr: "\<exists>x. check_replacements a = Inr x"
    using w by (simp add: check_replacements_def split: option.splits)
  have ab: "KEY_MAP k \<noteq> None \<Longrightarrow> \<exists>x. analyze_buffer (a\<lparr>buffer := buffer a @ [k]\<rparr>) = Inr x"
  proof -
    assume "KEY_MAP k \<noteq> None"
    with b have "list_all (\<lambda>k. KEY_MAP k \<noteq> None) (buffer a @ [k])" by simp
    from render_total[OF this] obtain u0 u1 where
      "render fst (buffer a @ [k]) = Inr u0" "render snd (buffer a @ [k]) = Inr u1" by blast
    then show ?thesis by (simp add: analyze_buffer_def Let_def)
  qed
  show ?thesis
    using cr ab
    by (auto simp: process_key_def Let_def split: sum.splits option.splits)
qed

text \<open>
  Claim C10, as stated, for the chord left Alt + left Shift: with left Alt held, the key-down of
  left Shift (the chord's last element) returns \<open>NONE\<close>, because a modifier key returns before
  the chord is looked at.
\<close>

theorem layout_changed_modifier_chord_counterexample:
  "feed_keys [(KEY_LEFTALT, 1), (KEY_LEFTSHIFT, 1)]
     (InputAnalyzer_init (Some [KEY_LEFTALT, KEY_LEFTSHIFT]) None None)
   = Inr ([AnalysisResult_of NONE, AnalysisResult_of NONE],
          (InputAnalyzer_init (Some [KEY_LEFTALT, KEY_LEFTSHIFT]) None None)
            \<lparr>active_modifiers := {KEY_LEFTSHIFT, KEY_LEFTALT}\<rparr>)"
  by (simp add: analyzer_defs)

text \<open>
  Claim C10, amended: \<open>process_key\<close> returns \<open>LAYOUT_CHANGED\<close> exactly when the analyzer is
  not paused, the scancode is not one of the eight modifier keys, the event is not a key-up
  (value other than 0: key-down or key-repeat), the chord is non-empty, the scancode is the
  chord's last element and every element before it is held; the buffer is then cleared.
  With an empty chord no event yields \<open>LAYOUT_CHANGED\<close>; with a chord of one non-modifier key,
  every key-down or key-repeat of it yields \<open>LAYOUT_CHANGED\<close> while the analyzer is not paused,
  whichever modifiers are held.
\<close>

theorem layout_changed_iff:
  "((\<exists>r a'. process_key k v a = Inr (r, a') \<and> action r = LAYOUT_CHANGED)
     = (\<not> paused a \<and> k \<notin> set modifier_keys \<and> v \<noteq> 0 \<and> switch_hotkey a \<noteq> []
        \<and> k = last (switch_hotkey a)
        \<and> (\<forall>m \<in> set (butlast (switch_hotkey a)). m \<in> active_modifiers a)))
   \<and> ((\<exists>r a'. process_key k v a = Inr (r, a') \<and> action r = LAYOUT_CHANGED)
        \<longrightarrow> process_key k v a = Inr (AnalysisResult_of LAYOUT_CHANGED, a\<lparr>buffer := []\<rparr>))
   \<and> (switch_hotkey a = []
        \<longrightarrow> \<not> (\<exists>r a'. process_key k v a = Inr (r, a') \<and> action r = LAYOUT_CHANGED))
   \<and> (switch_hotkey a = [k] \<and> \<not> paused a \<and> k \<notin> set modifier_keys \<and> v \<noteq> 0
        \<longrightarrow> process_key k v a = Inr (AnalysisResult_of LAYOUT_CHANGED, a\<lparr>buffer := []\<rparr>))"
proof -
  have 1: "(\<exists>r a'. process_key k v a = Inr (r, a') \<and> action r = LAYOUT_CHANGED)
     = (\<not> paused a \<and> k \<notin> set modifier_keys \<and> v \<noteq> 0 \<and> switch_hotkey a \<noteq> []
        \<and> k = last (switch_hotkey a)
        \<and> (\<forall>m \<in> set (butlast (switch_hotkey a)). m \<in> active_modifiers a))"
    unfolding layout_changed_cases by (auto simp: chord_completed_def list_all_iff)
  have 2: "(\<exists>r a'. process_key k v a = Inr (r, a') \<and> action r = LAYOUT_CHANGED)
        \<longrightarrow> process_key k v a = Inr (AnalysisResult_of LAYOUT_CHANGED, a\<lparr>buffer := []\<rparr>)"
    unfolding layout_changed_cases using layout_changed_result by blast
  have 3: "switch_hotkey a = []
        \<longrightarrow> \<not> (\<exists>r a'. process_key k v a = Inr (r, a') \<and> action r = LAYOUT_CHANGED)"
    unfolding layout_changed_cases by (simp add: chord_completed_def)
  have 4: "switch_hotkey a = [k] \<and> \<not> paused a \<and> k \<notin> set modifier_keys \<and> v \<noteq> 0
        \<longrightarrow> process_key k v a = Inr (AnalysisResult_of LAYOUT_CHANGED, a\<lparr>buffer := []\<rparr>)"
  proof (intro impI)
    assume h: "switch_hotkey a = [k] \<and> \<not> paused a \<and> k \<notin> set modifier_keys \<and> v \<noteq> 0"
    then have "chord_completed k a" by (simp add: chord_completed_def)
    with h show "process_key k v a = Inr (AnalysisResult_of LAYOUT_CHANGED, a\<lparr>buffer := []\<rparr>)"
      using layout_changed_result[of a k v] by blast
  qed
  from 1 2 3 4 show ?thesis by blast
qed

theorem layout_changed_iff_witness:
  "process_key KEY_SPACE 1 meta_held_analyzer
     = Inr (AnalysisResult_of LAYOUT_CHANGED, meta_held_analyzer\<lparr>buffer := []\<rparr>)
   \<and> process_key 58 2 (InputAnalyzer_init (Some [58]) None None)
     = Inr (AnalysisResult_of LAYOUT_CHANGED, (InputAnalyzer_init (Some [58]) None None)\<lparr>buffer := []\<rparr>)
   \<and> \<not> (\<exists>r a'. process_key KEY_SPACE 1 (InputAnalyzer_init None None None) = Inr (r, a')
                \<and> action r = LAYOUT_CHANGED)"
proof -
  have c: "\<not> paused meta_held_analyzer \<and> KEY_SPACE \<notin> set modifier_keys \<and> (1::int) \<noteq> 0
      \<and> switch_hotkey meta_held_analyzer \<noteq> []
      \<and> KEY_SPACE = last (switch_hotkey meta_held_analyzer)
      \<and> (\<forall>m \<in> set (butlast (switch_hotkey meta_held_analyzer)). m \<in> active_modifiers meta_held_analyzer)"
    by (simp add: meta_held_analyzer_def service_defs InputAnalyzer_init_def modifier_keys_def)
  have d: "switch_hotkey (InputAnalyzer_init (Some [58]) None None) = [58]
      \<and> \<not> paused (InputAnalyzer_init (Some [58]) None None) \<and> 58 \<notin> set modifier_keys \<and> (2::int) \<noteq> 0"
    by (simp add: InputAnalyzer_init_def modifier_keys_def)
  have e: "switch_hotkey (InputAnalyzer_init None None None) = []"
    by (simp add: InputAnalyzer_init_def)
  from layout_changed_iff[of KEY_SPACE 1 meta_held_analyzer] c
  have 1: "process_key KEY_SPACE 1 meta_held_analyzer
     = Inr (AnalysisResult_of LAYOUT_CHANGED, meta_held_analyzer\<lparr>buffer := []\<rparr>)"
    by blast
  from layout_changed_iff[of 58 2 "InputAnalyzer_init (Some [58]) None None"] d
  have 2: "process_key 58 2 (InputAnalyzer_init (Some [58]) None None)
     = Inr (AnalysisResult_of LAYOUT_CHANGED, (InputAnalyzer_init (Some [58]) None None)\<lparr>buffer := []\<rparr>)"
    by blast
  from layout_changed_iff[of KEY_SPACE 1 "InputAnalyzer_init None None None"] e
  have 3: "\<not> (\<exists>r a'. process_key KEY_SPACE 1 (InputAnalyzer_init None None None) = Inr (r, a')
                \<and> action r = LAYOUT_CHANGED)"
    by blast
  from 1 2 3 show ?thesis by blast
qed

text \<open>
  Claim C3, as stated, with the default chord (left Meta, Space): after the keys O, M, W and
  with left Meta held, Space completes the chord, so its key-down returns \<open>LAYOUT_CHANGED\<close>
  and no replacement, although the buffer is non-empty and \<open>autoreplace\<close> maps the word.
\<close>

theorem word_boundary_chord_counterexample:
  "feed_keys [(KEY_O, 1), (KEY_M, 1), (KEY_W, 1), (KEY_LEFTMETA, 1), (KEY_SPACE, 1)]
     omw_config_analyzer
   = Inr ([AnalysisResult_of NONE, AnalysisResult_of NONE, AnalysisResult_of NONE,
           AnalysisResult_of NONE, AnalysisResult_of LAYOUT_CHANGED],
          omw_config_analyzer\<lparr>active_modifiers := {KEY_LEFTMETA}\<rparr>)"
  by (simp add: omw_config_analyzer_def analyzer_defs layout_defs chr_defs detector_defs Let_def)

text \<open>
  Claim C3, amended: on a key-down (or repeat) of a word-boundary scancode that does not
  complete the switch chord, with the analyzer not paused and a non-empty buffer whose
  renderings are \<open>w0\<close> (layout 0) and \<open>w1\<close> (layout 1), the result is \<open>REPLACE_TEXT\<close> with the
  buffer as payload and the first hit of the lookup order as text, or \<open>NONE\<close> when there is no
  hit; the buffer is empty afterwards.
\<close>

theorem word_boundary_lookup: 
  assumes "\<not> paused a" and "k \<in> set word_boundary_keys" and "v \<noteq> 0" and "buffer a \<noteq> []"
    and "\<not> chord_completed k a"
    and "render fst (buffer a) = Inr w0" and "render snd (buffer a) = Inr w1"
  shows "process_key k v a =
           Inr (case spec_lookup a w0 w1 of
                  Some t \<Rightarrow> \<lparr>action = REPLACE_TEXT, target_layout_index = 0, confidence = 1,
                              payload = Some (buffer a), text_payload = Some t\<rparr>
                | None \<Rightarrow> AnalysisResult_of NONE,
                a\<lparr>buffer := []\<rparr>)"
proof -
  have k: "k \<notin> set modifier_keys" "k \<noteq> KEY_PAUSE" "k \<noteq> KEY_BACKSPACE"
    using assms(2) by (auto simp: word_boundary_keys_def modifier_keys_def)
  have cr: "check_replacements a =
              Inr (case spec_lookup a w0 w1 of
                     Some t \<Rightarrow> Some (replace_text_result (buffer a) t) | None \<Rightarrow> None)"
    using assms(4,6,7)
    by (simp add: check_replacements_def spec_lookup_def first_hit_def split: option.splits)
  show ?thesis
    using assms(1,2,3,5) k cr
    by (simp add: process_key_def reset_def replace_text_result_def split: option.splits)
qed

theorem word_boundary_lookup_witness:
  "process_key KEY_SPACE 1 omw_analyzer =
     Inr (\<lparr>action = REPLACE_TEXT, target_layout_index = 0, confidence = 1,
           payload = Some [KEY_O, KEY_M, KEY_W], text_payload = Some (ascii ''on my way'')\<rparr>,
          omw_analyzer\<lparr>buffer := []\<rparr>)"
proof -
  have 1: "\<not> paused omw_analyzer" "KEY_SPACE \<in> set word_boundary_keys" "(1::int) \<noteq> 0"
    "buffer omw_analyzer \<noteq> []" "\<not> chord_completed KEY_SPACE omw_analyzer"
    by (simp_all add: omw_analyzer_def omw_config_analyzer_def InputAnalyzer_init_def word_boundary_keys_def chord_completed_def)
  have 2: "render fst (buffer omw_analyzer) = Inr (ascii ''omw'')"
    "render snd (buffer omw_analyzer) = Inr [cyr_shcha, cyr_soft_sign, cyr_tse]"
    by (simp_all add: omw_analyzer_def omw_config_analyzer_def InputAnalyzer_init_def layout_defs)
  have 3: "spec_lookup omw_analyzer (ascii ''omw'') [cyr_shcha, cyr_soft_sign, cyr_tse] = Some (ascii ''on my way'')"
    by (simp add: spec_lookup_def first_hit_def omw_analyzer_def omw_config_analyzer_def InputAnalyzer_init_def ascii_def)
  have 4: "buffer omw_analyzer = [KEY_O, KEY_M, KEY_W]"
    by (simp add: omw_analyzer_def)
  from word_boundary_lookup[OF 1 2] show ?thesis by (simp add: 3 4)
qed

text \<open>
  Claim C4, as stated, for the right-hand Ctrl key: with only right Ctrl held, PAUSE yields
  \<open>CORRECT_WRONG_LAYOUT\<close>, not \<open>INVERT_CASE\<close>.
\<close>

theorem pause_hotkey_right_ctrl_counterexample:
  "feed_keys [(KEY_RIGHTCTRL, 1), (KEY_PAUSE, 1)] (analyzer default_service)
   = Inr ([AnalysisResult_of NONE, AnalysisResult_of CORRECT_WRONG_LAYOUT],
          (analyzer default_service)\<lparr>active_modifiers := {KEY_RIGHTCTRL}\<rparr>)"
  by (simp add: service_defs analyzer_defs)

text \<open>
  Claim C4, amended: on a key-down (or repeat) of PAUSE that does not complete the switch
  chord, with the analyzer not paused, the action is selected by the left-hand modifier keys
  only: left Ctrl with left Shift gives \<open>TRANSLITERATE\<close>, left Ctrl without left Shift
  \<open>INVERT_CASE\<close>, otherwise left Alt \<open>NUM_TO_WORDS\<close>, otherwise left Shift \<open>INVERT_CASE\<close>,
  otherwise \<open>CORRECT_WRONG_LAYOUT\<close>; the buffer is the payload exactly when it is non-empty,
  and the analyzer state is unchanged.
\<close>

theorem pause_hotkey_action:
  assumes "\<not> paused a" and "v \<noteq> 0" and "\<not> chord_completed KEY_PAUSE a"
  shows "\<exists>act. process_key KEY_PAUSE v a =
                 Inr (\<lparr>action = act, target_layout_index = 0, confidence = 0,
                       payload = (if buffer a = [] then None else Some (buffer a)),
                       text_payload = None\<rparr>, a)
          \<and> (KEY_LEFTCTRL \<in> active_modifiers a \<and> KEY_LEFTSHIFT \<in> active_modifiers a
               \<longrightarrow> act = TRANSLITERATE)
          \<and> (KEY_LEFTCTRL \<in> active_modifiers a \<and> KEY_LEFTSHIFT \<notin> active_modifiers a
               \<longrightarrow> act = INVERT_CASE)
          \<and> (KEY_LEFTCTRL \<notin> active_modifiers a \<and> KEY_LEFTALT \<in> active_modifiers a
               \<longrightarrow> act = NUM_TO_WORDS)
          \<and> (KEY_LEFTCTRL \<notin> active_modifiers a \<and> KEY_LEFTALT \<notin> active_modifiers a
               \<and> KEY_LEFTSHIFT \<in> active_modifiers a \<longrightarrow> act = INVERT_CASE)
          \<and> (KEY_LEFTCTRL \<notin> active_modifiers a \<and> KEY_LEFTALT \<notin> active_modifiers a
               \<and> KEY_LEFTSHIFT \<notin> active_modifiers a \<longrightarrow> act = CORRECT_WRONG_LAYOUT)"
  using assms
  by (simp add: process_key_def modifier_keys_def hotkey_action_def AnalysisResult_of_def Let_def)

theorem pause_hotkey_action_witness:
  "process_key KEY_PAUSE 1 alt_pause_analyzer =
     Inr (\<lparr>action = NUM_TO_WORDS, target_layout_index = 0, confidence = 0,
           payload = Some [KEY_G], text_payload = None\<rparr>, alt_pause_analyzer)"
proof -
  have 1: "\<not> paused alt_pause_analyzer" "(1::int) \<noteq> 0" "\<not> chord_completed KEY_PAUSE alt_pause_analyzer"
    by (simp_all add: alt_pause_analyzer_def service_defs InputAnalyzer_init_def chord_completed_def)
  have 2: "active_modifiers alt_pause_analyzer = {KEY_RIGHTCTRL, KEY_LEFTALT}" "buffer alt_pause_analyzer = [KEY_G]"
    by (simp_all add: alt_pause_analyzer_def)
  from pause_hotkey_action[OF 1] show ?thesis by (auto simp: 2)
qed

section \<open>Pausing\<close>

lemma reachable_paused_empty: "reachable a \<Longrightarrow> paused a \<Longrightarrow> buffer a = []"
proof (induction rule: reachable.induct)
  case (init hk ac ar)
  then show ?case by (simp add: InputAnalyzer_init_def)
next
  case (key a k v r a')
  from key.hyps(2) key.prems have "paused a" using process_key_paused_same by blast
  with key.hyps(2) key.IH show ?case by (simp add: process_key_paused)
next
  case (pause a b)
  then show ?case by (auto simp: set_paused_def reset_def split: if_splits)
next
  case (reset a)
  then show ?case by (simp add: reset_def)
qed

lemma feed_keys_paused:
  "paused a \<Longrightarrow> feed_keys kvs a = Inr (replicate (length kvs) (AnalysisResult_of NONE), a)"
  by (induction kvs) (auto simp: process_key_paused)

lemma typing_analyzer_reachable: "reachable typing_analyzer"
proof -
  have 0: "reachable (InputAnalyzer_init None None None)" by (rule reachable.init)
  have 1: "process_key KEY_G 1 (InputAnalyzer_init None None None)
             = Inr (AnalysisResult_of NONE, (InputAnalyzer_init None None None)\<lparr>buffer := [KEY_G]\<rparr>)"
    by (simp add: analyzer_defs layout_defs)
  have 2: "process_key KEY_H 1 ((InputAnalyzer_init None None None)\<lparr>buffer := [KEY_G]\<rparr>)
             = Inr (AnalysisResult_of NONE, typing_analyzer)"
    by (simp add: typing_analyzer_def analyzer_defs layout_defs)
  from reachable.key[OF reachable.key[OF 0 1] 2] show ?thesis .
qed

text \<open>
  Claim C8: in every reachable analyzer state, \<open>set_paused True\<close> leaves the buffer empty and
  the analyzer paused; from then on every sequence of \<open>process_key\<close> calls returns \<open>NONE\<close> for
  each event and leaves the state (and so the empty buffer) as it is; \<open>set_paused False\<close> ends
  the pause.
\<close>

theorem paused_mode:
  assumes "reachable a"
  shows "buffer (set_paused True a) = []
       \<and> paused (set_paused True a)
       \<and> feed_keys kvs (set_paused True a)
           = Inr (replicate (length kvs) (AnalysisResult_of NONE), set_paused True a)
       \<and> \<not> paused (set_paused False (set_paused True a))"
proof -
  have r: "reachable (set_paused True a)" using assms by (rule reachable.pause)
  have p: "paused (set_paused True a)" by (simp add: set_paused_def)
  from reachable_paused_empty[OF r p] p feed_keys_paused[OF p, of kvs] show ?thesis
    by (simp add: set_paused_def)
qed

theorem paused_mode_witness:
  "reachable typing_analyzer
   \<and> buffer typing_analyzer = [KEY_G, KEY_H]
   \<and> buffer (set_paused True typing_analyzer) = []
   \<and> feed_keys [(KEY_G, 1), (KEY_SPACE, 1), (KEY_PAUSE, 2)] (set_paused True typing_analyzer)
       = Inr ([AnalysisResult_of NONE, AnalysisResult_of NONE, AnalysisResult_of NONE],
              set_paused True typing_analyzer)"
  using paused_mode[OF typing_analyzer_reachable, of "[(KEY_G, 1), (KEY_SPACE, 1), (KEY_PAUSE, 2)]"]
    typing_analyzer_reachable
  by (simp add: typing_analyzer_def)

section \<open>The executor and the orchestrator\<close>

text \<open>\<open>backspace n\<close> sends the backspace key \<open>n\<close> times.\<close>

lemma fold_const_funpow: "fold (\<lambda>_. f) xs x = (f ^^ length xs) x"
  by (induction xs arbitrary: x) (simp_all add: funpow_swap1)

lemma backspace_funpow: "backspace n self = (send_key KEY_BACKSPACE True True ^^ n) self"
  by (simp add: backspace_def fold_const_funpow)

lemma backspace_0: "backspace 0 self = self"
  by (simp add: backspace_funpow)

lemma backspace_Suc:
  "backspace (Suc n) self = backspace n (send_key KEY_BACKSPACE True True self)"
  by (simp add: backspace_funpow funpow_swap1)

lemma backspace_numeral:
  "backspace (numeral n) self
   = backspace (pred_numeral n) (send_key KEY_BACKSPACE True True self)"
  using backspace_Suc[of "pred_numeral n" self] by (simp add: numeral_eq_Suc)

lemmas backspace_eval = backspace_0 backspace_Suc backspace_numeral

lemmas injector_eval =
  ui_call_def send_key_def send_combo_def Injector_switch_layout_def
  type_sequence_def written_def Injector_init_def backspace_eval

text \<open>
  Claim C1, as stated, for the analyzer alone: fed the key-downs of G, H, B, D, T, a fresh
  analyzer returns \<open>NONE\<close> four times and \<open>SWITCH_LAYOUT\<close> with target layout 1 already on
  the fifth key, since the five-letter rendering in layout 0 has no vowel and scores \<open>-5\<close>.
\<close>

theorem gibberish_fifth_key_counterexample: "feed_keys [(KEY_G, 1), (KEY_H, 1), (KEY_B, 1), (KEY_D, 1), (KEY_T, 1)] (analyzer default_service)
  = Inr ([AnalysisResult_of NONE, AnalysisResult_of NONE, AnalysisResult_of NONE, AnalysisResult_of NONE,
          switch_result 1 [KEY_G, KEY_H, KEY_B, KEY_D, KEY_T]],
         (analyzer default_service)\<lparr>buffer := [KEY_G, KEY_H, KEY_B, KEY_D, KEY_T]\<rparr>)"
  by (simp add: layout_defs chr_defs detector_defs analyzer_defs service_defs Let_def)

text \<open>
  Claim C1, amended: the service built from the default configuration, fed the key-downs of
  G, H, B, D, T, N, sees \<open>NONE\<close> for the first four keys and \<open>SWITCH_LAYOUT\<close> with payload
  G, H, B, D, T and target layout 1 on the fifth; the executor then emits five backspaces, the
  switch chord and the five scancodes again, the shadow layout goes from 0 to 1 and the buffer
  is reset; the sixth key starts a new buffer and returns \<open>NONE\<close>.
\<close>

theorem gibberish_auto_switch: "feed (map key_down [KEY_G, KEY_H, KEY_B, KEY_D, KEY_T, KEY_N]) default_service
  = Inr ([AnalysisResult_of NONE, AnalysisResult_of NONE, AnalysisResult_of NONE, AnalysisResult_of NONE,
          switch_result 1 [KEY_G, KEY_H, KEY_B, KEY_D, KEY_T], AnalysisResult_of NONE],
         default_service
           \<lparr>injector := type_sequence [KEY_G, KEY_H, KEY_B, KEY_D, KEY_T]
                          (Injector_switch_layout [KEY_LEFTMETA, KEY_SPACE]
                             (backspace 5 (injector default_service))),
            analyzer := (analyzer default_service)\<lparr>buffer := [KEY_N]\<rparr>,
            current_layout_index := 1,
            sound_played := [''switch'']\<rparr>)
  \<and> written (type_sequence [KEY_G, KEY_H, KEY_B, KEY_D, KEY_T]
                          (Injector_switch_layout [KEY_LEFTMETA, KEY_SPACE]
                             (backspace 5 (injector default_service))))
    = [KeyEvent KEY_BACKSPACE 1, Syn, KeyEvent KEY_BACKSPACE 0, Syn,
       KeyEvent KEY_BACKSPACE 1, Syn, KeyEvent KEY_BACKSPACE 0, Syn,
       KeyEvent KEY_BACKSPACE 1, Syn, KeyEvent KEY_BACKSPACE 0, Syn,
       KeyEvent KEY_BACKSPACE 1, Syn, KeyEvent KEY_BACKSPACE 0, Syn,
       KeyEvent KEY_BACKSPACE 1, Syn, KeyEvent KEY_BACKSPACE 0, Syn,
       KeyEvent KEY_LEFTMETA 1, Syn, KeyEvent KEY_SPACE 1, Syn,
       KeyEvent KEY_SPACE 0, Syn, KeyEvent KEY_LEFTMETA 0, Syn,
       KeyEvent KEY_G 1, Syn, KeyEvent KEY_G 0, Syn,
       KeyEvent KEY_H 1, Syn, KeyEvent KEY_H 0, Syn,
       KeyEvent KEY_B 1, Syn, KeyEvent KEY_B 0, Syn,
       KeyEvent KEY_D 1, Syn, KeyEvent KEY_D 0, Syn,
       KeyEvent KEY_T 1, Syn, KeyEvent KEY_T 0, Syn]"
  by (simp add: layout_defs chr_defs detector_defs analyzer_defs service_defs injector_eval Let_def)

text \<open>
  Claim C6: when the analyzer returns \<open>SWITCH_LAYOUT\<close> with the target layout equal to the
  shadow layout, the event handler changes nothing but the analyzer state it got back: nothing
  is written to the injector and the shadow layout stays; when the target differs (and the
  payload is non-empty) the handler performs the switch.
\<close>

theorem switch_suppressed_in_target_layout:
  assumes "ev_type e = EV_KEY"
    and "process_key (ev_code e) (ev_value e) (analyzer s) = Inr (r, a')"
    and "action r = SWITCH_LAYOUT"
  shows "(target_layout_index r = current_layout_index s
            \<longrightarrow> on_input_event e s = Inr (s\<lparr>analyzer := a'\<rparr>))
       \<and> (target_layout_index r \<noteq> current_layout_index s \<and> payload_list r \<noteq> []
            \<longrightarrow> on_input_event e s = Inr (perform_switch (payload_list r) (s\<lparr>analyzer := a'\<rparr>)))"
  using assms by (simp add: on_input_event_def manual_actions_def Let_def)

theorem switch_suppressed_in_target_layout_witness:
  "on_input_event (key_down KEY_T) switched_service
     = Inr (switched_service\<lparr>analyzer := (analyzer switched_service)\<lparr>buffer := [KEY_G, KEY_H, KEY_B, KEY_D, KEY_T]\<rparr>\<rparr>)
   \<and> on_input_event (key_down KEY_T) (switched_service\<lparr>current_layout_index := 0\<rparr>)
     = Inr (perform_switch [KEY_G, KEY_H, KEY_B, KEY_D, KEY_T]
              (switched_service\<lparr>current_layout_index := 0,
                 analyzer := (analyzer switched_service)\<lparr>buffer := [KEY_G, KEY_H, KEY_B, KEY_D, KEY_T]\<rparr>\<rparr>))"
proof -
  let ?a' = "(analyzer switched_service)\<lparr>buffer := [KEY_G, KEY_H, KEY_B, KEY_D, KEY_T]\<rparr>"
  let ?r = "switch_result 1 [KEY_G, KEY_H, KEY_B, KEY_D, KEY_T]"
  have 1: "ev_type (key_down KEY_T) = EV_KEY" by (simp add: key_down_def)
  have 2: "process_key (ev_code (key_down KEY_T)) (ev_value (key_down KEY_T)) (analyzer switched_service)
             = Inr (?r, ?a')"
    by (simp add: switched_service_def layout_defs chr_defs detector_defs analyzer_defs service_defs Let_def)
  have p2: "process_key (ev_code (key_down KEY_T)) (ev_value (key_down KEY_T)) (analyzer (switched_service\<lparr>current_layout_index := 0\<rparr>))
             = Inr (?r, ?a')"
    using 2 by simp
  have 3: "action ?r = SWITCH_LAYOUT" "target_layout_index ?r = current_layout_index switched_service"
     "target_layout_index ?r \<noteq> current_layout_index (switched_service\<lparr>current_layout_index := 0\<rparr>)"
     "payload_list ?r = [KEY_G, KEY_H, KEY_B, KEY_D, KEY_T]"
    by (simp_all add: switch_result_def switched_service_def payload_list_def)
  from switch_suppressed_in_target_layout[OF 1 2 3(1)] switch_suppressed_in_target_layout[OF 1 p2 3(1)] 3 show ?thesis by simp
qed

text \<open>
  Claim C7, as stated, on a device whose first write fails: the manual correction of the
  one-key word G loses its backspace, logs the error, and still emits the switch chord and
  retypes the key.
\<close>

theorem write_failure_not_abandoned_counterexample:
  "feed [key_down KEY_G, key_down KEY_PAUSE] faulty_service
   = Inr ([AnalysisResult_of NONE, (AnalysisResult_of CORRECT_WRONG_LAYOUT)\<lparr>payload := Some [KEY_G]\<rparr>],
          faulty_service
            \<lparr>injector :=
               \<lparr>ui = Some \<lparr>events = [KeyEvent KEY_LEFTMETA 1, Syn, KeyEvent KEY_SPACE 1, Syn,
                                      KeyEvent KEY_SPACE 0, Syn, KeyEvent KEY_LEFTMETA 0, Syn,
                                      KeyEvent KEY_G 1, Syn, KeyEvent KEY_G 0, Syn],
                            faults = []\<rparr>,
                injector_log = [ErrorWritingUinput]\<rparr>,
             current_layout_index := 1,
             sound_played := [''switch'']\<rparr>)"
  by (simp add: faulty_service_def layout_defs analyzer_defs service_defs injector_eval Let_def)

lemma ui_calls_attempt:
  "ui_calls calls dev =
     (case attempt calls (faults dev) of
        (es, fs, failed) \<Rightarrow> (failed, \<lparr>events = events dev @ es, faults = fs\<rparr>))"
proof (induction calls arbitrary: dev)
  case Nil
  then show ?case by (simp add: attempt_def)
next
  case (Cons c cs)
  show ?case
  proof (cases "faults dev")
    case Nil
    then show ?thesis using Cons.IH[of "dev\<lparr>events := events dev @ [c]\<rparr>"]
      by (simp add: ui_call_def attempt_def)
  next
    case (Cons f fs)
    then show ?thesis using Cons.IH[of "dev\<lparr>events := events dev @ [c], faults := fs\<rparr>"]
      by (cases f) (auto simp: ui_call_def attempt_def Let_def)
  qed
qed

lemma send_key_best_effort: "send_key k p r self = best_effort [Key k p r] self"
  by (cases "ui self")
     (auto simp: send_key_def ui_calls_attempt key_calls_def split: prod.splits)

lemma best_effort_append: "best_effort (xs @ ys) self = best_effort ys (best_effort xs self)"
  by (induction xs self rule: best_effort.induct) (auto split: option.splits prod.splits)

lemma best_effort_Cons: "best_effort (x # xs) self = best_effort xs (best_effort [x] self)"
  using best_effort_append[of "[x]" xs self] by simp

lemma fold_send_key:
  "fold (\<lambda>k. send_key k p r) ks self = best_effort (map (\<lambda>k. Key k p r) ks) self"
proof (induction ks arbitrary: self)
  case Nil
  then show ?case by simp
next
  case (Cons k ks)
  show ?case using Cons.IH[of "send_key k p r self"]
    by (simp only: fold_Cons comp_apply list.map send_key_best_effort
        best_effort_Cons[of "Key k p r" "map (\<lambda>k. Key k p r) ks" self])
qed

lemma backspace_best_effort: "backspace n self = best_effort (backspace_requests n) self"
proof (induction n arbitrary: self)
  case 0
  then show ?case by (simp add: backspace_0 backspace_requests_def)
next
  case (Suc n)
  show ?case using Suc.IH[of "send_key KEY_BACKSPACE True True self"]
    by (simp only: backspace_Suc backspace_requests_def replicate_Suc send_key_best_effort
        best_effort_Cons[of "Key KEY_BACKSPACE True True"
                            "replicate n (Key KEY_BACKSPACE True True)" self])
qed

lemma chord_best_effort:
  "Injector_switch_layout ks self = best_effort (chord_requests ks) self"
  by (simp add: Injector_switch_layout_def chord_requests_def fold_send_key best_effort_append)

lemma sequence_best_effort: "type_sequence ks self = best_effort (sequence_requests ks) self"
  by (simp add: type_sequence_def sequence_requests_def fold_send_key)

lemma combo_best_effort: "send_combo ms k self = best_effort (combo_requests ms k) self"
proof -
  let ?pressed = "best_effort (map (\<lambda>m. Key m True False) ms) self"
  have "send_combo ms k self
        = best_effort (map (\<lambda>m. Key m False True) (rev ms)) (best_effort [Key k True True] ?pressed)"
    by (simp only: send_combo_def fold_send_key send_key_best_effort)
  also have "\<dots> = best_effort ([Key k True True] @ map (\<lambda>m. Key m False True) (rev ms)) ?pressed"
    by (simp only: best_effort_append)
  also have "\<dots> = best_effort (combo_requests ms k) self"
    by (simp only: combo_requests_def best_effort_append)
  finally show ?thesis .
qed

lemma type_char_best_effort: "type_char U c self = best_effort (char_requests U c) self"
proof (cases "get_sequence_for_char U c")
  case None
  then show ?thesis by (simp add: type_char_def char_requests_def)
next
  case (Some cs)
  obtain code shift where cs: "cs = (code, shift)" by (cases cs)
  show ?thesis
  proof (cases shift)
    case True
    have "best_effort [Key KEY_LEFTSHIFT True False, Key code True True, Key KEY_LEFTSHIFT False True] self
          = send_key KEY_LEFTSHIFT False True
              (send_key code True True (send_key KEY_LEFTSHIFT True False self))"
      using best_effort_append[of "[Key KEY_LEFTSHIFT True False]"
              "[Key code True True, Key KEY_LEFTSHIFT False True]" self]
            best_effort_append[of "[Key code True True]" "[Key KEY_LEFTSHIFT False True]"
              "best_effort [Key KEY_LEFTSHIFT True False] self"]
      by (simp only: send_key_best_effort append_Cons append_Nil)
    with Some cs True show ?thesis by (simp add: type_char_def char_requests_def Let_def)
  next
    case False
    with Some cs show ?thesis
      by (simp add: type_char_def char_requests_def Let_def send_key_best_effort)
  qed
qed

lemma string_best_effort: "type_string U t self = best_effort (string_requests U t) self"
proof (induction t arbitrary: self)
  case Nil
  then show ?case by (simp add: type_string_def string_requests_def)
next
  case (Cons c cs)
  from Cons.IH[of "type_char U c self"] show ?case
    by (simp add: type_string_def string_requests_def best_effort_append type_char_best_effort)
qed

lemma on_input_event_error:
  "(on_input_event e s = Inl err)
   = (ev_type e = EV_KEY \<and> process_key (ev_code e) (ev_value e) (analyzer s) = Inl err)"
  by (auto simp: on_input_event_def Let_def split: sum.splits prod.splits)

lemma selection_error:
  "(perform_selection_correction lib clip act s = Inl err)
   = (\<exists>t. clip = Some t \<and> t \<noteq> [] \<and> apply_transform lib act t = Inl err)"
  by (cases clip) (auto simp: perform_selection_correction_def Let_def split: sum.splits)

lemmas request_defs =
  backspace_requests_def chord_requests_def sequence_requests_def key_calls_def attempt_def

text \<open>
  Claim C7, amended: on an injection failure (a failing write or sync of the virtual keyboard
  device, at any point of any operation) the error is logged and the remaining device calls of
  the key being sent are skipped, but the action is not abandoned: every following key of the
  operation is still attempted, in order. This is so for \<open>send_key\<close>, \<open>backspace\<close>, the switch
  chord, \<open>type_sequence\<close>, \<open>send_combo\<close> and \<open>type_string\<close> under every schedule of failures.
  No exception leaves the injector: the event handler raises only when \<open>process_key\<close> does,
  so the service continues. After a layout switch the shadow layout is flipped, the sound is
  played and the analyzer buffer is reset, whatever failed.
\<close>

theorem write_failure_best_effort:
  "send_key k p r self = best_effort [Key k p r] self
   \<and> backspace n self = best_effort (backspace_requests n) self
   \<and> Injector_switch_layout chord self = best_effort (chord_requests chord) self
   \<and> type_sequence codes self = best_effort (sequence_requests codes) self
   \<and> send_combo ms k self = best_effort (combo_requests ms k) self
   \<and> type_string U t self = best_effort (string_requests U t) self
   \<and> perform_switch ks s
       = s\<lparr>injector :=
              best_effort (backspace_requests (length ks) @ chord_requests (layout_switch_hotkey s)
                           @ sequence_requests ks) (injector s),
            current_layout_index := 1 - current_layout_index s,
            sound_played := sound_played s @ [''switch''],
            analyzer := (analyzer s)\<lparr>buffer := []\<rparr>\<rparr>
   \<and> ((on_input_event e s = Inl err)
        = (ev_type e = EV_KEY \<and> process_key (ev_code e) (ev_value e) (analyzer s) = Inl err))"
proof -
  have ps: "perform_switch ks s
       = s\<lparr>injector :=
              best_effort (backspace_requests (length ks) @ chord_requests (layout_switch_hotkey s)
                           @ sequence_requests ks) (injector s),
            current_layout_index := 1 - current_layout_index s,
            sound_played := sound_played s @ [''switch''],
            analyzer := (analyzer s)\<lparr>buffer := []\<rparr>\<rparr>"
    by (simp add: perform_switch_def Let_def reset_def backspace_best_effort chord_best_effort
        sequence_best_effort best_effort_append)
  show ?thesis
    using send_key_best_effort backspace_best_effort chord_best_effort sequence_best_effort
      combo_best_effort string_best_effort ps on_input_event_error
    by blast
qed

text \<open>
  An instance: the sync after the first backspace press and the sync after the press of Space
  fail. The release of the backspace and the sync of Space are lost, two errors are logged, and
  everything else of the switch is sent.
\<close>

theorem write_failure_best_effort_witness:
  "perform_switch [KEY_G] syn_faulty_service
   = syn_faulty_service
       \<lparr>injector :=
          \<lparr>ui = Some \<lparr>events = [KeyEvent KEY_BACKSPACE 1,
                                 KeyEvent KEY_LEFTMETA 1, Syn, KeyEvent KEY_SPACE 1,
                                 KeyEvent KEY_SPACE 0, Syn, KeyEvent KEY_LEFTMETA 0, Syn,
                                 KeyEvent KEY_G 1, Syn, KeyEvent KEY_G 0, Syn],
                       faults = []\<rparr>,
           injector_log = [ErrorWritingUinput, ErrorWritingUinput]\<rparr>,
        current_layout_index := 1,
        sound_played := [''switch''],
        analyzer := (analyzer syn_faulty_service)\<lparr>buffer := []\<rparr>\<rparr>"
proof -
  have "perform_switch [KEY_G] syn_faulty_service
       = syn_faulty_service\<lparr>injector :=
              best_effort (backspace_requests (length [KEY_G])
                           @ chord_requests (layout_switch_hotkey syn_faulty_service)
                           @ sequence_requests [KEY_G]) (injector syn_faulty_service),
            current_layout_index := 1 - current_layout_index syn_faulty_service,
            sound_played := sound_played syn_faulty_service @ [''switch''],
            analyzer := (analyzer syn_faulty_service)\<lparr>buffer := []\<rparr>\<rparr>"
    using write_failure_best_effort[where ks = "[KEY_G]" and s = syn_faulty_service] by blast
  then show ?thesis
    by (simp add: syn_faulty_service_def PuntoService_init_def Injector_init_def request_defs)
qed

lemma number_to_text_unparsed:
  "py_float lib (str_strip (str_replace_chr 44 46 t)) = None \<Longrightarrow> number_to_text lib t = Inr None"
  by (simp add: number_to_text_def Let_def split: option.splits)

text \<open>
  Claim C9: when the clipboard read returns no text (or the empty string), or the transform
  returns the text unchanged, the round-trip ends after the copy combo: nothing is handed to
  the clipboard and the injector has done the copy combo only. In particular this is so for
  \<open>NUM_TO_WORDS\<close> on a text the float parser rejects.
\<close>

theorem selection_round_trip_aborts:
  assumes "clip = None \<or> clip = Some []
           \<or> (\<exists>t. clip = Some t \<and> apply_transform lib act t = Inr t)
           \<or> (\<exists>t. clip = Some t \<and> act = NUM_TO_WORDS
                   \<and> py_float lib (str_strip (str_replace_chr 44 46 t)) = None)"
  shows "\<exists>s'. perform_selection_correction lib clip act s = Inr s'
              \<and> clipboard_set s' = clipboard_set s
              \<and> injector s' = send_combo [KEY_LEFTCTRL] KEY_C (injector s)"
proof -
  consider (empty) "clip = None \<or> clip = Some []"
    | (same) t where "clip = Some t" "t \<noteq> []" "apply_transform lib act t = Inr t"
    | (unparsed) t where "clip = Some t" "t \<noteq> []" "act = NUM_TO_WORDS"
        "py_float lib (str_strip (str_replace_chr 44 46 t)) = None"
    using assms by (cases clip) auto
  then show ?thesis
  proof cases
    case empty
    then show ?thesis by (auto simp: perform_selection_correction_def Let_def)
  next
    case same
    then show ?thesis by (simp add: perform_selection_correction_def Let_def)
  next
    case unparsed
    then have "apply_transform lib act t = Inr t"
      by (simp add: apply_transform_def number_to_text_unparsed)
    with unparsed show ?thesis by (simp add: perform_selection_correction_def Let_def)
  qed
qed

lemma selection_round_trip_pastes:
  assumes "clip = Some t" and "t \<noteq> []" and "apply_transform lib act t = Inr t'" and "t' \<noteq> t"
  shows "\<exists>s'. perform_selection_correction lib clip act s = Inr s'
              \<and> clipboard_set s' = clipboard_set s @ [t']
              \<and> injector s' = send_combo [KEY_LEFTCTRL] KEY_V
                                 (send_combo [KEY_LEFTCTRL] KEY_C (injector s))"
  using assms by (simp add: perform_selection_correction_def Let_def)

theorem selection_round_trip_aborts_witness:
  "\<exists>s'. perform_selection_correction sample_lib (Some (ascii ''abc'')) NUM_TO_WORDS default_service = Inr s'
        \<and> clipboard_set s' = []
        \<and> written (injector s')
            = [KeyEvent KEY_LEFTCTRL 1, Syn, KeyEvent KEY_C 1, Syn, KeyEvent KEY_C 0, Syn,
               KeyEvent KEY_LEFTCTRL 0, Syn]"
proof -
  have "py_float sample_lib (str_strip (str_replace_chr 44 46 (ascii ''abc''))) = None"
    by (simp add: sample_lib_def str_strip_def str_replace_chr_def chr_isspace_def ascii_def)
  then have h: "Some (ascii ''abc'') = None \<or> Some (ascii ''abc'') = Some []
           \<or> (\<exists>t. Some (ascii ''abc'') = Some t \<and> apply_transform sample_lib NUM_TO_WORDS t = Inr t)
           \<or> (\<exists>t. Some (ascii ''abc'') = Some t \<and> NUM_TO_WORDS = NUM_TO_WORDS
                   \<and> py_float sample_lib (str_strip (str_replace_chr 44 46 t)) = None)"
    by simp
  have w: "written (send_combo [KEY_LEFTCTRL] KEY_C (injector default_service))
            = [KeyEvent KEY_LEFTCTRL 1, Syn, KeyEvent KEY_C 1, Syn, KeyEvent KEY_C 0, Syn,
               KeyEvent KEY_LEFTCTRL 0, Syn]"
    by (simp add: service_defs injector_eval)
  have c: "clipboard_set default_service = []" by (simp add: service_defs)
  from selection_round_trip_aborts[OF h, of default_service] w c show ?thesis by auto
qed

end
